theory Spec2Isabelle
  imports Complex_Main
begin

section \<open>Leveling helpers (frontend/src/lib/utils/impact-product.ts)\<close>

text \<open>
  The TypeScript union type \<open>LevelName\<close> is a closed set of four string literals; it is
  embedded as a datatype. The \<open>number\<close> argument of the helpers is read at integer
  values (a count of cleanups or a level number), so it is an \<open>int\<close> here; the
  comparisons of the source are exact on those.
\<close>

datatype LevelName = Newbie | Pro | Hero | Guardian

definition getLevelName :: "int \<Rightarrow> LevelName" where
  "getLevelName level =
     (if level \<ge> 1 \<and> level \<le> 3 then Newbie
      else if level \<ge> 4 \<and> level \<le> 6 then Pro
      else if level \<ge> 7 \<and> level \<le> 9 then Hero
      else if level \<ge> 10 then Guardian
      else Newbie)"

definition getImpactValueRange :: "int \<Rightarrow> string" where
  "getImpactValueRange level =
     (if level \<ge> 1 \<and> level \<le> 3 then ''1-3''
      else if level \<ge> 4 \<and> level \<le> 6 then ''4-6''
      else if level \<ge> 7 \<and> level \<le> 9 then ''7-9''
      else if level \<ge> 10 then ''10+''
      else ''0'')"

text \<open>
  Modelled from the spec: the tier component of the leveling rule. No function under the
  sources computes a tier from an approved-submission count (the collectible contract
  that does is not part of them); section 4.4 of the specification gives it as the count
  clamped to the inclusive range from 1 to 10.
\<close>

definition levelTier :: "int \<Rightarrow> int" where
  "levelTier approvedCount = max 1 (min 10 approvedCount)"

record level_info =
  tier :: int
  levelName :: LevelName

text \<open>
  The leveling rule \<open>level(approvedCount)\<close> of section 4.4: the name is the source's
  \<open>getLevelName\<close>, the tier is \<open>levelTier\<close>.
\<close>

definition levelRule :: "int \<Rightarrow> level_info" where
  "levelRule approvedCount =
     \<lparr>tier = levelTier approvedCount, levelName = getLevelName approvedCount\<rparr>"

section \<open>Submission lifecycle and reward ledger (the contracts behind the client)\<close>

text \<open>
  Modelled from the spec: the on-chain Submission contract, its reward ledger and the
  recyclables reserve. The sources hold only the client wrapper that calls them
  (frontend/src/lib/blockchain/contracts.ts, with the ABI fragment it declares) and the
  deployment scripts; the contract code itself is not among them. Every definition of
  this section follows sections 3, 4 and 5 of the specification. Each operation is one
  atomic transaction: it returns either an error (\<open>Inl\<close>, nothing applied) or its
  result together with the new store.

  The status enumeration is the one declared by the client
  (\<open>CleanupStatus\<close> in contracts.ts: Pending = 0, Approved = 1, Rejected = 2).
\<close>

type_synonym address = string

datatype CleanupStatus = Pending | Approved | Rejected

definition statusCode :: "CleanupStatus \<Rightarrow> nat" where
  "statusCode st = (case st of Pending \<Rightarrow> 0 | Approved \<Rightarrow> 1 | Rejected \<Rightarrow> 2)"

datatype category = BaseImpact | Streak | Referral | ImpactReport | VerifierIncentive | Recyclables

datatype role = DEFAULT_ADMIN | ADMIN | VERIFIER

datatype error = NotFound | InvalidState | Unauthorized | InvalidEvidence | FeeRequired | NothingToClaim

record Submission =
  submissionId :: nat
  submitter :: address
  beforeEvidenceRef :: string
  afterEvidenceRef :: string
  recyclablesEvidenceRef :: "string option"
  recyclablesReceiptRef :: "string option"
  impactReportRef :: string
  recordedReferrer :: "address option"
  location :: "int \<times> int"
  createdAt :: nat
  status :: CleanupStatus
  rewarded :: bool

definition hasRecyclables :: "Submission \<Rightarrow> bool" where
  "hasRecyclables sub = (recyclablesEvidenceRef sub \<noteq> None)"

record ReserveAccount =
  capacity :: nat
  distributed :: nat

record FeeConfig =
  amount :: nat
  enabled :: bool
  treasury :: address

text \<open>
  Modelled from the spec: the ledger store of section 3, which is the state of the
  contracts: the submission log with its counter, the per-account per-category accrued
  rewards, the amounts already transferred by claims, the reserve, the role assignment,
  the creation fee and the fixed reward amounts.
\<close>

record LedgerStore =
  submissionCount :: nat
  submissions :: "nat \<rightharpoonup> Submission"
  rewards :: "address \<Rightarrow> category \<Rightarrow> nat"
  transferred :: "address \<Rightarrow> nat"
  reserve :: ReserveAccount
  unitReward :: nat
  roleAssignment :: "role \<Rightarrow> address \<Rightarrow> bool"
  creationFee :: FeeConfig
  baseAmount :: nat
  reportBonus :: nat
  referralAmount :: nat

text \<open>
  Modelled from the spec: the store at deployment, which no source file sets up: the
  counter at 0, an empty log, empty ledgers, nothing distributed from a reserve of the
  given capacity, the deployer as the only role holder (DEFAULT_ADMIN) and the creation
  fee disabled.
\<close>

definition genesis :: "address \<Rightarrow> nat \<Rightarrow> nat \<Rightarrow> nat \<Rightarrow> nat \<Rightarrow> nat \<Rightarrow> LedgerStore" where
  "genesis deployer cap unit base bonus refAmount =
     \<lparr>submissionCount = 0, submissions = Map.empty, rewards = (\<lambda>_ _. 0),
      transferred = (\<lambda>_. 0), reserve = \<lparr>capacity = cap, distributed = 0\<rparr>,
      unitReward = unit, roleAssignment = (\<lambda>r a. r = DEFAULT_ADMIN \<and> a = deployer),
      creationFee = \<lparr>amount = 0, enabled = False, treasury = deployer\<rparr>,
      baseAmount = base, reportBonus = bonus, referralAmount = refAmount\<rparr>"

subsection \<open>Access control (section 4.5)\<close>

text \<open>
  Modelled from the spec: the role surface of the contract. DEFAULT_ADMIN controls every
  grant and revocation and the treasury and fee updates; ADMIN and VERIFIER may approve
  and reject.
\<close>

definition hasRole :: "LedgerStore \<Rightarrow> role \<Rightarrow> address \<Rightarrow> bool" where
  "hasRole s r a = roleAssignment s r a"

definition canVerify :: "LedgerStore \<Rightarrow> address \<Rightarrow> bool" where
  "canVerify s actor = (hasRole s ADMIN actor \<or> hasRole s VERIFIER actor)"

definition grantRole :: "LedgerStore \<Rightarrow> role \<Rightarrow> address \<Rightarrow> address \<Rightarrow> error + LedgerStore" where
  "grantRole s r a actor =
     (if \<not> hasRole s DEFAULT_ADMIN actor then Inl Unauthorized
      else Inr (s\<lparr>roleAssignment := (roleAssignment s)(r := (roleAssignment s r)(a := True))\<rparr>))"

definition revokeRole :: "LedgerStore \<Rightarrow> role \<Rightarrow> address \<Rightarrow> address \<Rightarrow> error + LedgerStore" where
  "revokeRole s r a actor =
     (if \<not> hasRole s DEFAULT_ADMIN actor then Inl Unauthorized
      else Inr (s\<lparr>roleAssignment := (roleAssignment s)(r := (roleAssignment s r)(a := False))\<rparr>))"

definition updateTreasury :: "LedgerStore \<Rightarrow> address \<Rightarrow> address \<Rightarrow> error + LedgerStore" where
  "updateTreasury s payee actor =
     (if \<not> hasRole s DEFAULT_ADMIN actor then Inl Unauthorized
      else Inr (s\<lparr>creationFee := (creationFee s)\<lparr>treasury := payee\<rparr>\<rparr>))"

definition setFee :: "LedgerStore \<Rightarrow> nat \<Rightarrow> bool \<Rightarrow> address \<Rightarrow> error + LedgerStore" where
  "setFee s feeAmount feeEnabled actor =
     (if \<not> hasRole s DEFAULT_ADMIN actor then Inl Unauthorized
      else Inr (s\<lparr>creationFee := (creationFee s)\<lparr>amount := feeAmount, enabled := feeEnabled\<rparr>\<rparr>))"

subsection \<open>Submission state machine (section 4.1)\<close>

text \<open>
  Modelled from the spec: \<open>create\<close> of section 4.1, absent from the sources. It takes
  the submitter, the payment that comes with the call and the time of the transaction
  besides the arguments the specification lists. A fee counts as supplied when the
  payment covers the configured amount.
\<close>

definition create ::
  "LedgerStore \<Rightarrow> address \<Rightarrow> nat \<Rightarrow> nat \<Rightarrow> string \<Rightarrow> string \<Rightarrow> int \<times> int \<Rightarrow> string
     \<Rightarrow> address option \<Rightarrow> error + (nat \<times> LedgerStore)" where
  "create s who paid now beforeRef afterRef loc reportRef refOpt =
     (if beforeRef = [] \<or> afterRef = [] then Inl InvalidEvidence
      else if enabled (creationFee s) \<and> paid < amount (creationFee s) then Inl FeeRequired
      else
        let newId = submissionCount s;
            sub = \<lparr>submissionId = newId, submitter = who, beforeEvidenceRef = beforeRef,
                   afterEvidenceRef = afterRef, recyclablesEvidenceRef = None,
                   recyclablesReceiptRef = None, impactReportRef = reportRef,
                   recordedReferrer = refOpt, location = loc, createdAt = now,
                   status = Pending, rewarded = False\<rparr>
        in Inr (newId, s\<lparr>submissionCount := newId + 1,
                         submissions := (submissions s)(newId \<mapsto> sub)\<rparr>))"

text \<open>
  Modelled from the spec: \<open>attachRecyclables\<close> of section 4.1, absent from the sources.
  The recyclables references are settable once and only while the submission is Pending;
  a second attachment is a violated precondition on the state.
\<close>

definition attachRecyclables :: "LedgerStore \<Rightarrow> nat \<Rightarrow> string \<Rightarrow> string \<Rightarrow> error + LedgerStore" where
  "attachRecyclables s i photoRef receiptRef =
     (case submissions s i of
        None \<Rightarrow> Inl NotFound
      | Some sub \<Rightarrow>
          if status sub \<noteq> Pending \<or> recyclablesEvidenceRef sub \<noteq> None then Inl InvalidState
          else Inr (s\<lparr>submissions := (submissions s)(i \<mapsto>
                 sub\<lparr>recyclablesEvidenceRef := Some photoRef,
                     recyclablesReceiptRef := Some receiptRef\<rparr>)\<rparr>))"

subsection \<open>Reward accrual (section 4.2) and capped reserve payout (section 4.3)\<close>

text \<open>
  Modelled from the spec: \<open>creditOnApproval\<close> of section 4.2, absent from the sources.
  It does nothing for a submission already rewarded; otherwise it credits the base amount
  to the submitter, the report bonus if an impact report is attached, and the referral
  amount to the recorded referrer, and marks the submission rewarded.
\<close>

definition credit ::
  "(address \<Rightarrow> category \<Rightarrow> nat) \<Rightarrow> address \<Rightarrow> category \<Rightarrow> nat \<Rightarrow> (address \<Rightarrow> category \<Rightarrow> nat)" where
  "credit l a c n = l(a := (l a)(c := l a c + n))"

definition creditOnApproval :: "LedgerStore \<Rightarrow> nat \<Rightarrow> LedgerStore" where
  "creditOnApproval s i =
     (case submissions s i of
        None \<Rightarrow> s
      | Some sub \<Rightarrow>
          if rewarded sub then s
          else
            let l1 = credit (rewards s) (submitter sub) BaseImpact (baseAmount s);
                l2 = (if impactReportRef sub \<noteq> []
                      then credit l1 (submitter sub) ImpactReport (reportBonus s) else l1);
                l3 = (case recordedReferrer sub of
                        None \<Rightarrow> l2
                      | Some r \<Rightarrow> credit l2 r Referral (referralAmount s))
            in s\<lparr>rewards := l3, submissions := (submissions s)(i \<mapsto> sub\<lparr>rewarded := True\<rparr>)\<rparr>)"

datatype payout = NotEligible | PaidOut | ReserveExhausted

text \<open>
  Modelled from the spec: \<open>payoutIfEligible\<close> and \<open>syncReserve\<close> of section 4.3, absent
  from the sources. The remaining reserve is computed over the integers, so that the
  comparison with the unit reward reads as in the specification whatever the two counters
  hold. The check and the increment are one step of one transaction. \<open>syncReserve\<close> is
  open to DEFAULT_ADMIN and never sets the capacity below what is distributed.
\<close>

definition payoutIfEligible :: "LedgerStore \<Rightarrow> Submission \<Rightarrow> payout \<times> LedgerStore" where
  "payoutIfEligible s sub =
     (let remaining = int (capacity (reserve s)) - int (distributed (reserve s)) in
      if remaining \<ge> int (unitReward s)
      then (PaidOut,
            s\<lparr>reserve := (reserve s)\<lparr>distributed := distributed (reserve s) + unitReward s\<rparr>,
              rewards := credit (rewards s) (submitter sub) Recyclables (unitReward s)\<rparr>)
      else (ReserveExhausted, s))"

definition syncReserve :: "LedgerStore \<Rightarrow> nat \<Rightarrow> address \<Rightarrow> error + LedgerStore" where
  "syncReserve s newCapacity actor =
     (if \<not> hasRole s DEFAULT_ADMIN actor then Inl Unauthorized
      else Inr (s\<lparr>reserve := (reserve s)\<lparr>capacity := max newCapacity (distributed (reserve s))\<rparr>\<rparr>))"

text \<open>
  Modelled from the spec: \<open>approve\<close> and \<open>reject\<close> of section 4.1, absent from the sources
  (the client reaches them through \<open>approveSubmission\<close> and \<open>rejectSubmission\<close>). The
  authorization guard comes first, then the lookup of the id, then the precondition on
  the status. The event of an approval carries the new status, the submitter and the
  outcome of the reserve payout.
\<close>

record approval_event =
  newStatus :: CleanupStatus
  eventSubmitter :: address
  payoutStatus :: payout

definition approve :: "LedgerStore \<Rightarrow> nat \<Rightarrow> address \<Rightarrow> error + (approval_event \<times> LedgerStore)" where
  "approve s i actor =
     (if \<not> canVerify s actor then Inl Unauthorized
      else case submissions s i of
        None \<Rightarrow> Inl NotFound
      | Some sub \<Rightarrow>
          if status sub \<noteq> Pending then Inl InvalidState
          else
            let s1 = s\<lparr>submissions := (submissions s)(i \<mapsto> sub\<lparr>status := Approved\<rparr>)\<rparr>;
                s2 = creditOnApproval s1 i;
                (p, s3) = (if hasRecyclables sub then payoutIfEligible s2 sub
                           else (NotEligible, s2))
            in Inr (\<lparr>newStatus = Approved, eventSubmitter = submitter sub, payoutStatus = p\<rparr>, s3))"

definition reject :: "LedgerStore \<Rightarrow> nat \<Rightarrow> address \<Rightarrow> error + (approval_event \<times> LedgerStore)" where
  "reject s i actor =
     (if \<not> canVerify s actor then Inl Unauthorized
      else case submissions s i of
        None \<Rightarrow> Inl NotFound
      | Some sub \<Rightarrow>
          if status sub \<noteq> Pending then Inl InvalidState
          else Inr (\<lparr>newStatus = Rejected, eventSubmitter = submitter sub, payoutStatus = NotEligible\<rparr>,
                    s\<lparr>submissions := (submissions s)(i \<mapsto> sub\<lparr>status := Rejected\<rparr>)\<rparr>))"

text \<open>
  Modelled from the spec: \<open>claim\<close> of section 4.2, absent from the sources. The amount is
  the sum over the six categories; with nothing accrued it reports NothingToClaim.
\<close>

definition categories :: "category list" where
  "categories = [BaseImpact, Streak, Referral, ImpactReport, VerifierIncentive, Recyclables]"

definition accrued :: "LedgerStore \<Rightarrow> address \<Rightarrow> nat" where
  "accrued s a = sum_list (map (rewards s a) categories)"

definition claim :: "LedgerStore \<Rightarrow> address \<Rightarrow> error + (nat \<times> LedgerStore)" where
  "claim s a =
     (let total = accrued s a in
      if total = 0 then Inl NothingToClaim
      else Inr (total, s\<lparr>rewards := (rewards s)(a := (\<lambda>_. 0)),
                         transferred := (transferred s)(a := transferred s a + total)\<rparr>))"

subsection \<open>Read surface (section 6)\<close>

text \<open>
  Modelled from the spec: the reads of section 6 that the claims use: a submission by id,
  its status, and the number of Approved submissions of an account.
\<close>

definition getSubmissionDetails :: "LedgerStore \<Rightarrow> nat \<Rightarrow> error + Submission" where
  "getSubmissionDetails s i = (case submissions s i of None \<Rightarrow> Inl NotFound | Some sub \<Rightarrow> Inr sub)"

definition statusOf :: "LedgerStore \<Rightarrow> nat \<Rightarrow> CleanupStatus option" where
  "statusOf s i = map_option status (submissions s i)"

definition approvedCount :: "LedgerStore \<Rightarrow> address \<Rightarrow> nat" where
  "approvedCount s a =
     length (filter (\<lambda>i. case submissions s i of
                            None \<Rightarrow> False
                          | Some sub \<Rightarrow> submitter sub = a \<and> status sub = Approved)
               [0..<submissionCount s])"

subsection \<open>Transactions (section 5)\<close>

text \<open>
  Modelled from the spec: the mutating operations as atomic transactions against the
  shared store, run in the order in which they are committed.
\<close>

datatype operation =
    Create address nat nat string string "int \<times> int" string "address option"
  | AttachRecyclables nat string string
  | Approve nat address
  | Reject nat address
  | Claim address
  | SyncReserve nat address
  | GrantRole role address address
  | RevokeRole role address address
  | UpdateTreasury address address
  | SetFee nat bool address

datatype outcome = Created nat | Verified approval_event | Claimed nat | Done

definition step :: "LedgerStore \<Rightarrow> operation \<Rightarrow> error + (outcome \<times> LedgerStore)" where
  "step s operation =
     (case operation of
        Create who paid now b a loc rep refOpt \<Rightarrow>
          map_sum id (\<lambda>(i, s'). (Created i, s')) (create s who paid now b a loc rep refOpt)
      | AttachRecyclables i photoRef receiptRef \<Rightarrow>
          map_sum id (Pair Done) (attachRecyclables s i photoRef receiptRef)
      | Approve i actor \<Rightarrow> map_sum id (\<lambda>(e, s'). (Verified e, s')) (approve s i actor)
      | Reject i actor \<Rightarrow> map_sum id (\<lambda>(e, s'). (Verified e, s')) (reject s i actor)
      | Claim a \<Rightarrow> map_sum id (\<lambda>(n, s'). (Claimed n, s')) (claim s a)
      | SyncReserve newCapacity actor \<Rightarrow> map_sum id (Pair Done) (syncReserve s newCapacity actor)
      | GrantRole r a actor \<Rightarrow> map_sum id (Pair Done) (grantRole s r a actor)
      | RevokeRole r a actor \<Rightarrow> map_sum id (Pair Done) (revokeRole s r a actor)
      | UpdateTreasury payee actor \<Rightarrow> map_sum id (Pair Done) (updateTreasury s payee actor)
      | SetFee feeAmount feeEnabled actor \<Rightarrow>
          map_sum id (Pair Done) (setFee s feeAmount feeEnabled actor))"

text \<open>
  A transaction either commits or has no effect: \<open>exec\<close> returns the result and the
  store after it, which is the store before it when the operation failed.
\<close>

definition exec :: "LedgerStore \<Rightarrow> operation \<Rightarrow> (error + outcome) \<times> LedgerStore" where
  "exec s operation =
     (case step s operation of Inl e \<Rightarrow> (Inl e, s) | Inr (r, s') \<Rightarrow> (Inr r, s'))"

fun run :: "LedgerStore \<Rightarrow> operation list \<Rightarrow> LedgerStore" where
  "run s [] = s"
| "run s (operation # rest) = run (snd (exec s operation)) rest"

text \<open>
  The results of the transactions of a history, in order, and the ids that its
  successful creations returned.
\<close>

fun outcomes :: "LedgerStore \<Rightarrow> operation list \<Rightarrow> (error + outcome) list" where
  "outcomes s [] = []"
| "outcomes s (operation # rest) =
     (case exec s operation of (r, s') \<Rightarrow> r # outcomes s' rest)"

definition createdIds :: "(error + outcome) list \<Rightarrow> nat list" where
  "createdIds rs = concat (map (\<lambda>r. case r of Inr (Created i) \<Rightarrow> [i] | _ \<Rightarrow> []) rs)"

text \<open>Approving a list of submissions one after the other, stopping at the first failure.\<close>

fun approveAll :: "LedgerStore \<Rightarrow> address \<Rightarrow> nat list \<Rightarrow> error + LedgerStore" where
  "approveAll s actor [] = Inr s"
| "approveAll s actor (i # rest) =
     (case approve s i actor of Inl e \<Rightarrow> Inl e | Inr (_, s') \<Rightarrow> approveAll s' actor rest)"

section \<open>JavaScript numbers\<close>

text \<open>
  A value of the TypeScript type \<open>number\<close> is a double: a finite value, one of the two
  infinities, or NaN. A finite double is a real number, and the comparisons of the source
  are exact on those, so the finite values are embedded as reals. A comparison with NaN
  on either side is false.
\<close>

datatype number = Finite real | PosInfinity | NegInfinity | NaN

fun jsLess :: "number \<Rightarrow> number \<Rightarrow> bool" where
  "jsLess NaN y = False"
| "jsLess x NaN = False"
| "jsLess (Finite x) (Finite y) = (x < y)"
| "jsLess x NegInfinity = False"
| "jsLess NegInfinity y = True"
| "jsLess PosInfinity y = False"
| "jsLess x PosInfinity = True"

definition jsGreater :: "number \<Rightarrow> number \<Rightarrow> bool" where
  "jsGreater x y = jsLess y x"

definition isFinite :: "number \<Rightarrow> bool" where
  "isFinite x = (case x of Finite r \<Rightarrow> True | _ \<Rightarrow> False)"

section \<open>The client wrapper (frontend/src/lib/blockchain/contracts.ts)\<close>

text \<open>
  The wrapper reads its configuration from the environment (\<open>SUBMISSION_ADDRESS\<close>)
  and the connected wallet (\<open>getAccount(config).address\<close>); both may be absent. Its
  calls \<open>readContract\<close> and \<open>writeContract\<close> reach the contract of the previous
  section, so each wrapper takes the ledger store and returns it as the call leaves it.
  A \<open>throw\<close> of the source is an \<open>Inl\<close> result. Values of type \<open>bigint\<close> are
  integers; identifiers that hold a \<open>uint256\<close> are naturals. Parameters that the source
  writes with a leading underscore (\<open>_referrer\<close>, \<open>_fee\<close>, \<open>_address\<close>) are written
  here with the prefix \<open>arg\<close>.

  Failures of the infrastructure (network, RPC node) are not modelled: a read of the
  contract succeeds, and a write fails exactly when the contract refuses the transaction.
  The transaction hash that some wrappers return is not modelled either; they return
  the unit value.

  Floating-point arithmetic is not computed here: the double-precision product that
  scales a coordinate is a parameter of the environment (\<open>doubleProduct\<close>), about which
  nothing is assumed.
\<close>

record env =
  SUBMISSION_ADDRESS :: "address option"
  accountAddress :: "address option"
  doubleProduct :: "number \<Rightarrow> number \<Rightarrow> number"

datatype client_error =
    NotConfigured
  | WalletNotConnected
  | RangeError
  | FailedToSubmit error
  | FailedToVerify error
  | FailedToReject error
  | ContractRead error

text \<open>JavaScript truthiness of an optional string: present and not empty.\<close>

definition truthy :: "string option \<Rightarrow> bool" where
  "truthy x = (case x of None \<Rightarrow> False | Some v \<Rightarrow> v \<noteq> [])"

definition zeroAddress :: address where
  "zeroAddress = ''0x0000000000000000000000000000000000000000''"

text \<open>
  \<open>Math.round\<close> rounds a finite number to the nearest integer, halves upwards, and
  returns NaN and the infinities as they are. \<open>BigInt\<close> converts a number that is an
  integer and throws a RangeError on every other number (\<open>None\<close> here).
\<close>

definition mathRound :: "number \<Rightarrow> number" where
  "mathRound x = (case x of Finite r \<Rightarrow> Finite (of_int \<lfloor>r + 1 / 2\<rfloor>) | _ \<Rightarrow> x)"

definition toBigInt :: "number \<Rightarrow> int option" where
  "toBigInt x =
     (case x of
        Finite r \<Rightarrow> if r = of_int \<lfloor>r\<rfloor> then Some \<lfloor>r\<rfloor> else None
      | _ \<Rightarrow> None)"

text \<open>
  Modelled from the spec: the contract entry points named by the ABI fragment of the
  wrapper, in terms of the operations of section 4.1. The caller of the transaction is
  the submitter or the actor; the zero address stands for no referrer and the empty
  string for no impact report. The payment that comes with the call is the fee supplied
  (the ABI fragment marks \<open>createSubmission\<close> as nonpayable; the specification lets a
  creation fee be supplied, and that is what is modelled).
\<close>

definition createSubmission ::
  "LedgerStore \<Rightarrow> address \<Rightarrow> nat \<Rightarrow> nat
     \<Rightarrow> string \<times> string \<times> string \<times> string \<times> int \<times> int \<times> address
     \<Rightarrow> error + (nat \<times> LedgerStore)" where
  "createSubmission s sender paid now args =
     (case args of (dataURI, beforePhotoHash, afterPhotoHash, impactFormDataHash, lat, lng, referrer) \<Rightarrow>
        create s sender paid now beforePhotoHash afterPhotoHash (lat, lng) impactFormDataHash
          (if referrer = zeroAddress then None else Some referrer))"

definition approveSubmission :: "LedgerStore \<Rightarrow> address \<Rightarrow> nat \<Rightarrow> error + (approval_event \<times> LedgerStore)" where
  "approveSubmission s sender i = approve s i sender"

definition rejectSubmission :: "LedgerStore \<Rightarrow> address \<Rightarrow> nat \<Rightarrow> error + (approval_event \<times> LedgerStore)" where
  "rejectSubmission s sender i = reject s i sender"

subsection \<open>submitCleanup\<close>

text \<open>
  The object \<open>contractConfig\<close> that \<open>submitCleanup\<close> hands to \<open>writeContract\<close>: the
  arguments of \<open>createSubmission\<close>, the sending account, and the payment \<open>value\<close>,
  which is present only if a fee was passed and is positive. It is a function of the two
  coordinates already converted with \<open>BigInt\<close>.
\<close>

record write_request =
  args :: "string \<times> string \<times> string \<times> string \<times> int \<times> int \<times> address"
  account :: address
  value_wei :: "int option"

definition contractConfig ::
  "address \<Rightarrow> string \<Rightarrow> string \<Rightarrow> int \<Rightarrow> int \<Rightarrow> string option \<Rightarrow> bool \<Rightarrow> string
     \<Rightarrow> int option \<Rightarrow> write_request" where
  "contractConfig acct beforeHash afterHash latInt256 lngInt256 argReferrer argHasImpactForm
       argImpactReportHash argFee =
     (let dataURI = [];
          referrer = (case argReferrer of
                        None \<Rightarrow> zeroAddress
                      | Some r \<Rightarrow> if r \<noteq> [] \<and> r \<noteq> zeroAddress then r else zeroAddress);
          impactFormDataHash = (if argHasImpactForm \<and> argImpactReportHash \<noteq> []
                                then argImpactReportHash else []);
          base = \<lparr>args = (dataURI, beforeHash, afterHash, impactFormDataHash,
                            latInt256, lngInt256, referrer),
                   account = acct, value_wei = None\<rparr>
      in case argFee of
           None \<Rightarrow> base
         | Some fee \<Rightarrow> if fee \<noteq> 0 \<and> fee > 0 then base\<lparr>value_wei := Some fee\<rparr> else base)"

definition writeContract :: "LedgerStore \<Rightarrow> nat \<Rightarrow> write_request \<Rightarrow> error + (nat \<times> LedgerStore)" where
  "writeContract chain now req =
     createSubmission chain (account req)
       (case value_wei req of None \<Rightarrow> 0 | Some v \<Rightarrow> nat v) now (args req)"

text \<open>
  \<open>submitCleanup\<close> awaits its read of \<open>submissionCount\<close> and its write of
  \<open>createSubmission\<close> as two separate calls to the chain, so transactions of other
  parties can be committed between the two: they are the argument \<open>interleaved\<close>, a
  history that runs on the store after the read and before the write. With the empty
  history nothing comes between. The returned id is the counter as read, whatever came
  in between. The store returned is the one right after the write; what is committed
  later has no part in the result. The two conversions with \<open>BigInt\<close> come before the \<open>try\<close> block, so
  their RangeError is thrown as it is. The second read of the counter is not used by
  the source; the final test of the returned id against \<open>undefined\<close> and \<open>null\<close>
  cannot fail after a successful read and has no branch here.
\<close>

definition submitCleanup ::
  "env \<Rightarrow> LedgerStore \<Rightarrow> operation list \<Rightarrow> nat \<Rightarrow> string \<Rightarrow> string \<Rightarrow> number \<Rightarrow> number
     \<Rightarrow> string option \<Rightarrow> bool \<Rightarrow> string \<Rightarrow> int option \<Rightarrow> (client_error + nat) \<times> LedgerStore" where
  "submitCleanup e chain interleaved now beforeHash afterHash lat lng argReferrer
       argHasImpactForm argImpactReportHash argFee =
     (if \<not> truthy (SUBMISSION_ADDRESS e) then (Inl NotConfigured, chain)
      else case accountAddress e of
        None \<Rightarrow> (Inl WalletNotConnected, chain)
      | Some acct \<Rightarrow>
          if acct = [] then (Inl WalletNotConnected, chain)
          else
            let scale = Finite 1000000;
                latScaled = mathRound (doubleProduct e lat scale);
                lngScaled = mathRound (doubleProduct e lng scale)
            in (case toBigInt latScaled of
                  None \<Rightarrow> (Inl RangeError, chain)
                | Some latInt256 \<Rightarrow>
                    (case toBigInt lngScaled of
                       None \<Rightarrow> (Inl RangeError, chain)
                     | Some lngInt256 \<Rightarrow>
                         let submissionCountBefore = submissionCount chain;
                             chainAtWrite = run chain interleaved;
                             cfg = contractConfig acct beforeHash afterHash latInt256 lngInt256
                                     argReferrer argHasImpactForm argImpactReportHash argFee
                         in (case writeContract chainAtWrite now cfg of
                               Inl err \<Rightarrow> (Inl (FailedToSubmit err), chainAtWrite)
                             | Inr (_, chain') \<Rightarrow>
                                 let submissionCountAfter = submissionCount chain';
                                     submissionId = submissionCountBefore
                                 in (Inr submissionId, chain')))))"

subsection \<open>Reads, fees and stubs\<close>

record CleanupDetails =
  id_cd :: nat
  user :: address
  beforePhotoHash :: string
  afterPhotoHash :: string
  timestamp :: nat
  latitude :: int
  longitude :: int
  verified :: bool
  claimed :: bool
  rejected :: bool
  level_cd :: int

text \<open>
  \<open>getCleanupDetails\<close>: without a configured contract it returns a local fallback
  (stamped with the current time, here \<open>now\<close>); otherwise it reads the submission and
  derives the flags from the numeric status. A failing read is not caught.
\<close>

definition getCleanupDetails :: "env \<Rightarrow> LedgerStore \<Rightarrow> nat \<Rightarrow> nat \<Rightarrow> client_error + CleanupDetails" where
  "getCleanupDetails e chain now cleanupId =
     (if \<not> truthy (SUBMISSION_ADDRESS e)
      then Inr \<lparr>id_cd = cleanupId, user = zeroAddress, beforePhotoHash = [], afterPhotoHash = [],
                timestamp = now, latitude = 0, longitude = 0, verified = False,
                claimed = False, rejected = False, level_cd = 0\<rparr>
      else case getSubmissionDetails chain cleanupId of
             Inl err \<Rightarrow> Inl (ContractRead err)
           | Inr result \<Rightarrow>
               let statusNumber = statusCode (status result) in
               Inr \<lparr>id_cd = submissionId result, user = submitter result,
                    beforePhotoHash = beforeEvidenceRef result,
                    afterPhotoHash = afterEvidenceRef result,
                    timestamp = createdAt result,
                    latitude = fst (location result), longitude = snd (location result),
                    verified = (statusNumber = statusCode Approved),
                    claimed = rewarded result,
                    rejected = (statusNumber = statusCode Rejected),
                    level_cd = (if statusNumber = statusCode Approved then 1 else 0)\<rparr>)"

definition getSubmissionFee :: "int \<times> bool" where
  "getSubmissionFee = (0, False)"

definition verifyCleanup :: "env \<Rightarrow> LedgerStore \<Rightarrow> nat \<Rightarrow> int \<Rightarrow> (client_error + unit) \<times> LedgerStore" where
  "verifyCleanup e chain cleanupId level =
     (if \<not> truthy (SUBMISSION_ADDRESS e) then (Inl NotConfigured, chain)
      else case accountAddress e of
        None \<Rightarrow> (Inl WalletNotConnected, chain)
      | Some acct \<Rightarrow>
          if acct = [] then (Inl WalletNotConnected, chain)
          else (case approveSubmission chain acct cleanupId of
                  Inl err \<Rightarrow> (Inl (FailedToVerify err), chain)
                | Inr (_, chain') \<Rightarrow> (Inr (), chain')))"

definition rejectCleanup :: "env \<Rightarrow> LedgerStore \<Rightarrow> nat \<Rightarrow> (client_error + unit) \<times> LedgerStore" where
  "rejectCleanup e chain cleanupId =
     (if \<not> truthy (SUBMISSION_ADDRESS e) then (Inl NotConfigured, chain)
      else case accountAddress e of
        None \<Rightarrow> (Inl WalletNotConnected, chain)
      | Some acct \<Rightarrow>
          if acct = [] then (Inl WalletNotConnected, chain)
          else (case rejectSubmission chain acct cleanupId of
                  Inl err \<Rightarrow> (Inl (FailedToReject err), chain)
                | Inr (_, chain') \<Rightarrow> (Inr (), chain')))"

definition getClaimableRewards :: "address \<Rightarrow> int" where
  "getClaimableRewards argAddress = 0"

definition getUserLevel :: "address \<Rightarrow> int" where
  "getUserLevel argAddress = 0"

section \<open>Impact product uploads (the IPFS utilities of the client)\<close>

text \<open>
  The functions \<open>uploadToIPFS\<close> and \<open>uploadJSONToIPFS\<close> are imported from the
  pinning module of the client, which is not among the sources: they are parameters
  here (\<open>None\<close> when the call rejects). Every call made to either of them is recorded,
  in order, in an upload log, so that an operation performs no upload exactly when
  it leaves the log unchanged. The environment variable \<open>NEXT_PUBLIC_APP_URL\<close> is a parameter
  as well.
\<close>

record File =
  file_name :: string
  file_type :: string

record IPFSUploadResult =
  hash :: string
  url :: string

datatype attribute_value = Text string | Number int

record ImpactProductMetadata =
  name :: string
  description :: string
  image :: string
  animation_url :: "string option"
  external_url :: string
  attributes :: "(string \<times> attribute_value) list"

record ipfs =
  uploadToIPFS :: "File \<Rightarrow> IPFSUploadResult option"
  uploadJSONToIPFS :: "ImpactProductMetadata \<Rightarrow> string \<Rightarrow> IPFSUploadResult option"
  NEXT_PUBLIC_APP_URL :: "string option"

datatype upload = FileUpload File | JsonUpload ImpactProductMetadata string

datatype upload_error =
    LevelOutOfRange
  | BadFileType
  | WrongImageCount
  | MissingImage int
  | UploadRejected

text \<open>
  The level of \<open>uploadImpactProductImage\<close> is a \<open>number\<close> and may be any double; the
  guard is the pair of comparisons of the source.
\<close>

definition uploadImpactProductImage ::
  "ipfs \<Rightarrow> upload list \<Rightarrow> File \<Rightarrow> number \<Rightarrow> (upload_error + IPFSUploadResult) \<times> upload list" where
  "uploadImpactProductImage svc sent file level =
     (if jsLess level (Finite 1) \<or> jsGreater level (Finite 10) then (Inl LevelOutOfRange, sent)
      else
        let validTypes = [''image/png'', ''image/gif''] in
        if file_type file \<notin> set validTypes then (Inl BadFileType, sent)
        else (case uploadToIPFS svc file of
                None \<Rightarrow> (Inl UploadRejected, sent @ [FileUpload file])
              | Some result \<Rightarrow> (Inr result, sent @ [FileUpload file])))"

text \<open>
  \<open>uploadAllImpactProductImages\<close> starts one upload per image, in index order, and waits
  for all of them with \<open>Promise.all\<close>. Every callback runs up to its upload call whatever
  happens to the others, so the log holds every upload that passed validation. The
  combined promise rejects with the rejection that settles first: a validation error
  (raised before anything is awaited) comes before any rejected upload; among rejected
  uploads the one of lowest index is taken. The level of an image is its index plus one,
  an integer.
\<close>

fun uploadEach ::
  "ipfs \<Rightarrow> upload list \<Rightarrow> (File \<times> int) list
     \<Rightarrow> (int \<times> (upload_error + IPFSUploadResult)) list \<times> upload list" where
  "uploadEach svc sent [] = ([], sent)"
| "uploadEach svc sent ((file, level) # rest) =
     (if level \<le> 10
      then (case uploadImpactProductImage svc sent file (Finite (of_int level)) of
              (r, sent') \<Rightarrow> (case uploadEach svc sent' rest of
                              (rs, sent'') \<Rightarrow> ((level, r) # rs, sent'')))
      else uploadEach svc sent rest)"

definition firstRejection :: "(int \<times> (upload_error + IPFSUploadResult)) list \<Rightarrow> upload_error option" where
  "firstRejection rs =
     (let errs = concat (map (\<lambda>(_, r). case r of Inl e \<Rightarrow> [e] | Inr _ \<Rightarrow> []) rs);
          early = filter (\<lambda>e. e \<noteq> UploadRejected) errs
      in case early of
           e # _ \<Rightarrow> Some e
         | [] \<Rightarrow> (case errs of e # _ \<Rightarrow> Some e | [] \<Rightarrow> None))"

definition uploadAllImpactProductImages ::
  "ipfs \<Rightarrow> upload list \<Rightarrow> File list
     \<Rightarrow> (upload_error + (int \<rightharpoonup> IPFSUploadResult)) \<times> upload list" where
  "uploadAllImpactProductImages svc sent images =
     (case uploadEach svc sent (zip images (map (\<lambda>index. int index + 1) [0..<length images])) of
        (rs, sent') \<Rightarrow>
          (case firstRejection rs of
             Some e \<Rightarrow> (Inl e, sent')
           | None \<Rightarrow>
               (Inr (map_of (concat (map (\<lambda>(level, r). case r of Inl _ \<Rightarrow> []
                                                      | Inr result \<Rightarrow> [(level, result)]) rs))),
                sent')))"

text \<open>Decimal rendering of an integer, as \<open>String(level)\<close> and template literals do.\<close>

fun showNat :: "nat \<Rightarrow> string" where
  "showNat n =
     (if n < 10 then [char_of (48 + n)]
      else showNat (n div 10) @ [char_of (48 + n mod 10)])"

definition showInt :: "int \<Rightarrow> string" where
  "showInt i = (if i < 0 then CHR ''-'' # showNat (nat (- i)) else showNat (nat i))"

definition createImpactProductMetadata ::
  "ipfs \<Rightarrow> int \<Rightarrow> string \<Rightarrow> string option \<Rightarrow> int option \<Rightarrow> int \<Rightarrow> ImpactProductMetadata" where
  "createImpactProductMetadata svc level imageHash animationHash cleanupsCompleted hypercertsEarned =
     (let levelName = getLevelName level;
          levelText = (case levelName of Newbie \<Rightarrow> ''Newbie'' | Pro \<Rightarrow> ''Pro''
                       | Hero \<Rightarrow> ''Hero'' | Guardian \<Rightarrow> ''Guardian'');
          impactValue = showInt level;
          actualCleanupsCompleted = (case cleanupsCompleted of None \<Rightarrow> level | Some c \<Rightarrow> c);
          imageUrl = ''ipfs://'' @ imageHash;
          animationUrl = (case animationHash of
                            None \<Rightarrow> None
                          | Some h \<Rightarrow> if h \<noteq> [] then Some (''ipfs://'' @ h) else None);
          metadata =
            \<lparr>name = ''DeCleanup Impact Product - Level '' @ showInt level,
             description =
               ''A tokenized representation of environmental cleanup impact. Level ''
                 @ showInt level @ '' ('' @ levelText @ '') Impact Product with ''
                 @ showInt actualCleanupsCompleted @ '' cleanups completed and ''
                 @ showInt hypercertsEarned @ '' hypercerts earned.'',
             image = imageUrl,
             animation_url = None,
             external_url = (if truthy (NEXT_PUBLIC_APP_URL svc)
                             then (case NEXT_PUBLIC_APP_URL svc of Some u \<Rightarrow> u | None \<Rightarrow> [])
                             else ''https://decleanup.network''),
             attributes =
               [(''Type'', Text ''Dynamic''),
                (''Impact'', Text ''Environment''),
                (''Category'', Text ''Cleanup NFT''),
                (''Impact Value'', Text impactValue),
                (''Level'', Text levelText),
                (''Level Number'', Number level),
                (''Cleanups Completed'', Number actualCleanupsCompleted),
                (''Hypercerts Earned'', Number hypercertsEarned)]\<rparr>
      in if level = 10 \<and> animationUrl \<noteq> None
         then metadata\<lparr>animation_url := animationUrl\<rparr> else metadata)"

definition uploadImpactProductMetadata ::
  "ipfs \<Rightarrow> upload list \<Rightarrow> int \<Rightarrow> string \<Rightarrow> string option \<Rightarrow> int \<Rightarrow> int
     \<Rightarrow> (upload_error + IPFSUploadResult) \<times> upload list" where
  "uploadImpactProductMetadata svc sent level imageHash animationHash cleanupsCompleted
       hypercertsEarned =
     (let metadata = createImpactProductMetadata svc level imageHash animationHash
                       (Some cleanupsCompleted) hypercertsEarned;
          label = ''impact-product-level-'' @ showInt level
      in case uploadJSONToIPFS svc metadata label of
           None \<Rightarrow> (Inl UploadRejected, sent @ [JsonUpload metadata label])
         | Some result \<Rightarrow> (Inr result, sent @ [JsonUpload metadata label]))"

record batch_entry =
  imageHash_b :: string
  metadataHash :: string
  animationHash_b :: "string option"

text \<open>The loop \<open>for (let level = 1; level <= 10; level++)\<close> of the batch upload.\<close>

fun metadataLoop ::
  "ipfs \<Rightarrow> upload list \<Rightarrow> (int \<rightharpoonup> IPFSUploadResult) \<Rightarrow> string option \<Rightarrow> int list
     \<Rightarrow> (int \<rightharpoonup> batch_entry) \<Rightarrow> (upload_error + (int \<rightharpoonup> batch_entry)) \<times> upload list" where
  "metadataLoop svc sent imageResults animationHash [] results = (Inr results, sent)"
| "metadataLoop svc sent imageResults animationHash (level # rest) results =
     (case imageResults level of
        None \<Rightarrow> (Inl (MissingImage level), sent)
      | Some imageResult \<Rightarrow>
          (case uploadImpactProductMetadata svc sent level (hash imageResult)
                  (if level = 10 then animationHash else None) 0 0 of
             (Inl e, sent') \<Rightarrow> (Inl e, sent')
           | (Inr metadataResult, sent') \<Rightarrow>
               metadataLoop svc sent' imageResults animationHash rest
                 (results(level \<mapsto>
                    \<lparr>imageHash_b = hash imageResult, metadataHash = hash metadataResult,
                     animationHash_b = (if level = 10 then animationHash else None)\<rparr>))))"

definition batchUploadImpactProducts ::
  "ipfs \<Rightarrow> upload list \<Rightarrow> File list \<Rightarrow> File option
     \<Rightarrow> (upload_error + (int \<rightharpoonup> batch_entry)) \<times> upload list" where
  "batchUploadImpactProducts svc sent images animation =
     (if length images \<noteq> 10 then (Inl WrongImageCount, sent)
      else
        (case uploadAllImpactProductImages svc sent images of
           (Inl e, sent1) \<Rightarrow> (Inl e, sent1)
         | (Inr imageResults, sent1) \<Rightarrow>
             (case (case animation of
                      None \<Rightarrow> (Inr None, sent1)
                    | Some anim \<Rightarrow>
                        (case uploadImpactProductImage svc sent1 anim (Finite 10) of
                           (Inl e, sent2) \<Rightarrow> (Inl e, sent2)
                         | (Inr animationResult, sent2) \<Rightarrow> (Inr (Some (hash animationResult)), sent2))) of
                (Inl e, sent2) \<Rightarrow> (Inl e, sent2)
              | (Inr animationHash, sent2) \<Rightarrow>
                  metadataLoop svc sent2 imageResults animationHash
                    (map int [1..<11]) Map.empty)))"

section \<open>Invariants of the ledger store\<close>

text \<open>
  Three facts hold of the store at deployment and after every transaction: no
  submission is stored at or beyond the counter, a Pending submission has not been
  rewarded, and the reserve has not paid out more than its capacity.
\<close>

definition logBounded :: "LedgerStore \<Rightarrow> bool" where
  "logBounded s = (\<forall>i. submissionCount s \<le> i \<longrightarrow> submissions s i = None)"

definition pendingUnrewarded :: "LedgerStore \<Rightarrow> bool" where
  "pendingUnrewarded s =
     (\<forall>i sub. submissions s i = Some sub \<longrightarrow> status sub = Pending \<longrightarrow> \<not> rewarded sub)"

definition reserveWithinCap :: "LedgerStore \<Rightarrow> bool" where
  "reserveWithinCap s = (distributed (reserve s) \<le> capacity (reserve s))"

definition invariant :: "LedgerStore \<Rightarrow> bool" where
  "invariant s = (logBounded s \<and> pendingUnrewarded s \<and> reserveWithinCap s)"

text \<open>
  What may happen to a stored submission over time: its submitter and id stay, and its
  status either stays or leaves Pending.
\<close>

definition evolves :: "Submission \<Rightarrow> Submission \<Rightarrow> bool" where
  "evolves sub sub' = (submitter sub' = submitter sub \<and> submissionId sub' = submissionId sub \<and>
      (status sub' = status sub \<or> (status sub = Pending \<and> status sub' \<noteq> Pending)))"

text \<open>
  The outcome of the reserve payout as section 4.3 decides it, read off the store before
  the approval; and what makes a submission an eligible one for the reserve: it is
  Pending and carries recyclables evidence.
\<close>

definition payoutDecision :: "LedgerStore \<Rightarrow> Submission \<Rightarrow> payout" where
  "payoutDecision s sub =
     (if hasRecyclables sub
      then (if int (capacity (reserve s)) - int (distributed (reserve s)) \<ge> int (unitReward s)
            then PaidOut else ReserveExhausted)
      else NotEligible)"

definition eligible :: "LedgerStore \<Rightarrow> nat \<Rightarrow> bool" where
  "eligible s i =
     (case submissions s i of None \<Rightarrow> False | Some sub \<Rightarrow> status sub = Pending \<and> hasRecyclables sub)"

section \<open>Concrete histories and stores, for instances\<close>

text \<open>
  In \<open>exampleHistory\<close> a deployer grants the verifier role, a user creates a submission
  with an impact report, and the verifier approves it. In \<open>pendingHistory\<close> two
  accounts receive a verifying role and a submission with a referrer is left Pending.
  In \<open>twoApprovedHistory\<close> one user has two submissions approved. \<open>feeHistory\<close>
  enables a creation fee of 7. \<open>reserveScenario\<close> is the store of the reserve example
  of section 8: capacity 5000, unit reward 5, nothing distributed yet, and 1001 Pending
  submissions with recyclables evidence (ids 0 to 1000).
\<close>

definition exampleHistory :: "operation list" where
  "exampleHistory =
     [GrantRole VERIFIER ''0xV'' ''0xD'',
      Create ''0xU'' 0 100 ''before'' ''after'' (1000000, 2000000) ''report'' None,
      Approve 0 ''0xV'']"

definition pendingHistory :: "operation list" where
  "pendingHistory =
     [GrantRole VERIFIER ''0xV'' ''0xD'',
      GrantRole ADMIN ''0xW'' ''0xD'',
      Create ''0xU'' 0 100 ''before'' ''after'' (1000000, 2000000) ''report'' (Some ''0xR'')]"

definition reserveScenario :: LedgerStore where
  "reserveScenario =
     (genesis ''0xD'' 5000 5 10 5 3)
       \<lparr>submissionCount := 1001,
        submissions := (\<lambda>i. if i < 1001
           then Some \<lparr>submissionId = i, submitter = ''0xU'', beforeEvidenceRef = ''before'',
                      afterEvidenceRef = ''after'', recyclablesEvidenceRef = Some ''photo'',
                      recyclablesReceiptRef = Some ''receipt'', impactReportRef = [],
                      recordedReferrer = None, location = (0, 0), createdAt = 0,
                      status = Pending, rewarded = False\<rparr>
           else None),
        roleAssignment := (\<lambda>r a. (r = DEFAULT_ADMIN \<and> a = ''0xD'') \<or> (r = VERIFIER \<and> a = ''0xV''))\<rparr>"

definition twoApprovedHistory :: "operation list" where
  "twoApprovedHistory =
     [GrantRole VERIFIER ''0xV'' ''0xD'',
      Create ''0xU'' 0 100 ''before'' ''after'' (1000000, 2000000) ''report'' None,
      Create ''0xU'' 0 200 ''before2'' ''after2'' (1000000, 2000000) [] None,
      Approve 0 ''0xV'',
      Approve 1 ''0xV'']"

definition feeHistory :: "operation list" where
  "feeHistory = [SetFee 7 True ''0xD'']"

text \<open>
  Two configured clients with connected wallets (accounts 0xU and 0xB); the products of
  their coordinates are the exact ones, which the doubles of the instances below have.
  \<open>firstCreation\<close> is the transaction that the first client's \<open>submitCleanup\<close> writes
  in the instances below, and \<open>secondCreation\<close> the one of the second client. Then a
  pinning service that accepts every upload, and a PNG file.
\<close>

definition exactProduct :: "number \<Rightarrow> number \<Rightarrow> number" where
  "exactProduct x y = (case (x, y) of (Finite a, Finite b) \<Rightarrow> Finite (a * b) | _ \<Rightarrow> NaN)"

definition exampleEnv :: env where
  "exampleEnv = \<lparr>SUBMISSION_ADDRESS = Some ''0xB9505fEf'', accountAddress = Some ''0xU'',
                  doubleProduct = exactProduct\<rparr>"

definition otherEnv :: env where
  "otherEnv = \<lparr>SUBMISSION_ADDRESS = Some ''0xB9505fEf'', accountAddress = Some ''0xB'',
                doubleProduct = exactProduct\<rparr>"

definition firstCreation :: operation where
  "firstCreation =
     Create ''0xU'' 0 100 ''QmBefore'' ''QmAfter'' (45500000, - 122250000) [] None"

definition secondCreation :: operation where
  "secondCreation =
     Create ''0xB'' 0 101 ''QmBefore2'' ''QmAfter2'' (10000000, 20000000) [] None"

definition examplePinning :: ipfs where
  "examplePinning =
     \<lparr>uploadToIPFS = (\<lambda>f. Some \<lparr>hash = ''Qm'' @ file_name f, url = ''https://gateway/'' @ file_name f\<rparr>),
      uploadJSONToIPFS = (\<lambda>m label. Some \<lparr>hash = ''Qm'' @ label, url = ''https://gateway/'' @ label\<rparr>),
      NEXT_PUBLIC_APP_URL = None\<rparr>"

definition pngFile :: File where
  "pngFile = \<lparr>file_name = ''IP1.png'', file_type = ''image/png''\<rparr>"

section \<open>Properties of the leveling helpers\<close>

lemma getLevelName_bands:
  "getLevelName n =
     (if 10 \<le> n then Guardian else if 7 \<le> n then Hero else if 4 \<le> n then Pro else Newbie)"
  by (simp add: getLevelName_def)

lemma levelTier_range: "1 \<le> levelTier n \<and> levelTier n \<le> 10"
  by (simp add: levelTier_def)

text \<open>
  Claim C3. For every approved-submission count \<open>n \<ge> 1\<close> the leveling rule gives:
  counts 1 to 3 are Newbie with tier equal to the count, 4 to 6 are Pro, 7 to 9 are Hero
  (tier still the count), and 10 or more are Guardian with the tier capped at 10. The
  band reported by \<open>getImpactValueRange\<close> agrees with the name. In particular
  level 3 is Newbie/3, level 4 is Pro/4, level 9 is Hero/9, level 10 is Guardian/10 and
  level 25 is Guardian/10.
\<close>

theorem level_mapping:
  "1 \<le> n \<Longrightarrow>
     levelRule n =
       (if n \<le> 3 then \<lparr>tier = n, levelName = Newbie\<rparr>
        else if n \<le> 6 then \<lparr>tier = n, levelName = Pro\<rparr>
        else if n \<le> 9 then \<lparr>tier = n, levelName = Hero\<rparr>
        else \<lparr>tier = 10, levelName = Guardian\<rparr>)
     \<and> getImpactValueRange n =
       (if n \<le> 3 then ''1-3'' else if n \<le> 6 then ''4-6''
        else if n \<le> 9 then ''7-9'' else ''10+'')
     \<and> levelRule 3 = \<lparr>tier = 3, levelName = Newbie\<rparr>
     \<and> levelRule 4 = \<lparr>tier = 4, levelName = Pro\<rparr>
     \<and> levelRule 9 = \<lparr>tier = 9, levelName = Hero\<rparr>
     \<and> levelRule 10 = \<lparr>tier = 10, levelName = Guardian\<rparr>
     \<and> levelRule 25 = \<lparr>tier = 10, levelName = Guardian\<rparr>"
  by (simp add: levelRule_def levelTier_def getLevelName_def getImpactValueRange_def)

theorem level_mapping_witness:
  "(1::int) \<le> 5 \<and> levelRule 5 = \<lparr>tier = 5, levelName = Pro\<rparr> \<and> getImpactValueRange 5 = ''4-6''
     \<and> levelRule 25 = \<lparr>tier = 10, levelName = Guardian\<rparr>"
  using level_mapping [of 5] by simp

text \<open>
  Claim C9. The helpers are total on the integers and fall through to their last branch
  below 1: for every count \<open>n \<le> 0\<close>, \<open>getLevelName\<close> returns Newbie and
  \<open>getImpactValueRange\<close> returns the string 0. In particular a user with no approved
  submission is named Newbie.
\<close>

theorem leveling_lower_edge:
  "n \<le> 0 \<Longrightarrow> getLevelName n = Newbie \<and> getImpactValueRange n = ''0''"
  by (simp add: getLevelName_def getImpactValueRange_def)

theorem leveling_lower_edge_witness:
  "(0::int) \<le> 0 \<and> getLevelName 0 = Newbie \<and> getImpactValueRange 0 = ''0''
     \<and> getLevelName (- 7) = Newbie \<and> getImpactValueRange (- 7) = ''0''"
  using leveling_lower_edge [of 0] leveling_lower_edge [of "- 7"] by simp

section \<open>Properties of the submission state machine\<close>

subsection \<open>What each operation does when it succeeds\<close>

lemma invariant_genesis: "invariant (genesis deployer cap unit base bonus refAmount)"
  by (simp add: invariant_def logBounded_def pendingUnrewarded_def reserveWithinCap_def genesis_def)

lemma create_Inr:
  "create s who paid now b a loc rep refOpt = Inr (i, s') \<Longrightarrow>
     i = submissionCount s \<and> submissionCount s' = Suc i \<and>
     (\<exists>sub. submissions s' = (submissions s)(i \<mapsto> sub) \<and> status sub = Pending \<and> \<not> rewarded sub
        \<and> submitter sub = who \<and> submissionId sub = i) \<and>
     rewards s' = rewards s \<and> reserve s' = reserve s \<and> roleAssignment s' = roleAssignment s
     \<and> unitReward s' = unitReward s \<and> baseAmount s' = baseAmount s"
  by (auto simp: create_def Let_def split: if_splits)

lemma attach_Inr:
  "attachRecyclables s i p r = Inr s' \<Longrightarrow>
     (\<exists>sub. submissions s i = Some sub \<and> status sub = Pending \<and>
        submissions s' = (submissions s)(i \<mapsto> sub\<lparr>recyclablesEvidenceRef := Some p, recyclablesReceiptRef := Some r\<rparr>))
     \<and> submissionCount s' = submissionCount s \<and>
     rewards s' = rewards s \<and> reserve s' = reserve s \<and> roleAssignment s' = roleAssignment s
     \<and> unitReward s' = unitReward s \<and> baseAmount s' = baseAmount s"
  by (auto simp: attachRecyclables_def split: option.splits if_splits)

lemma creditOnApproval_frame:
  "submissionCount (creditOnApproval s i) = submissionCount s \<and>
   reserve (creditOnApproval s i) = reserve s \<and>
   roleAssignment (creditOnApproval s i) = roleAssignment s \<and>
   unitReward (creditOnApproval s i) = unitReward s \<and>
   baseAmount (creditOnApproval s i) = baseAmount s \<and>
   creationFee (creditOnApproval s i) = creationFee s"
  by (simp add: creditOnApproval_def Let_def split: option.splits)

lemma creditOnApproval_submissions:
  "submissions (creditOnApproval s i) j =
     (if j = i then map_option (\<lambda>sub. sub\<lparr>rewarded := True\<rparr>) (submissions s i) else submissions s j)"
  by (auto simp: creditOnApproval_def Let_def split: option.splits)

lemma payout_frame:
  "payoutIfEligible s sub = (p, s') \<Longrightarrow>
     submissions s' = submissions s \<and> submissionCount s' = submissionCount s \<and>
     roleAssignment s' = roleAssignment s \<and> unitReward s' = unitReward s \<and>
     baseAmount s' = baseAmount s \<and> capacity (reserve s') = capacity (reserve s) \<and>
     creationFee s' = creationFee s"
  by (auto simp: payoutIfEligible_def Let_def split: if_splits)

lemma payout_within:
  "payoutIfEligible s sub = (p, s') \<Longrightarrow> reserveWithinCap s \<Longrightarrow> reserveWithinCap s'"
  by (auto simp: payoutIfEligible_def Let_def reserveWithinCap_def split: if_splits)

lemma approve_unfold:
  "canVerify s actor \<Longrightarrow> submissions s i = Some sub \<Longrightarrow> status sub = Pending \<Longrightarrow>
   approve s i actor =
     Inr (\<lparr>newStatus = Approved, eventSubmitter = submitter sub,
           payoutStatus = fst (if hasRecyclables sub
              then payoutIfEligible (creditOnApproval (s\<lparr>submissions := (submissions s)(i \<mapsto> sub\<lparr>status := Approved\<rparr>)\<rparr>) i) sub
              else (NotEligible, creditOnApproval (s\<lparr>submissions := (submissions s)(i \<mapsto> sub\<lparr>status := Approved\<rparr>)\<rparr>) i))\<rparr>,
          snd (if hasRecyclables sub
              then payoutIfEligible (creditOnApproval (s\<lparr>submissions := (submissions s)(i \<mapsto> sub\<lparr>status := Approved\<rparr>)\<rparr>) i) sub
              else (NotEligible, creditOnApproval (s\<lparr>submissions := (submissions s)(i \<mapsto> sub\<lparr>status := Approved\<rparr>)\<rparr>) i)))"
  by (simp add: approve_def Let_def case_prod_unfold)

lemma approve_Inr:
  assumes "approve s i actor = Inr (ev, s')"
  shows "\<exists>sub. canVerify s actor \<and> submissions s i = Some sub \<and> status sub = Pending \<and>
           submissions s' = (submissions s)(i \<mapsto> sub\<lparr>status := Approved, rewarded := True\<rparr>) \<and>
           submissionCount s' = submissionCount s \<and> roleAssignment s' = roleAssignment s \<and>
           unitReward s' = unitReward s \<and> baseAmount s' = baseAmount s \<and>
           capacity (reserve s') = capacity (reserve s) \<and> creationFee s' = creationFee s \<and>
           newStatus ev = Approved \<and> eventSubmitter ev = submitter sub"
proof -
  from assms obtain sub where sub: "canVerify s actor" "submissions s i = Some sub" "status sub = Pending"
    by (auto simp: approve_def split: if_splits option.splits)
  define s1 where "s1 = s\<lparr>submissions := (submissions s)(i \<mapsto> sub\<lparr>status := Approved\<rparr>)\<rparr>"
  define s2 where "s2 = creditOnApproval s1 i"
  define X where "X = (if hasRecyclables sub then payoutIfEligible s2 sub else (NotEligible, s2))"
  from assms approve_unfold[OF sub] have res: "s' = snd X" "ev = \<lparr>newStatus = Approved, eventSubmitter = submitter sub, payoutStatus = fst X\<rparr>"
    by (auto simp: X_def s2_def s1_def split: if_splits)
  have fr3: "submissions (snd X) = submissions s2 \<and> submissionCount (snd X) = submissionCount s2 \<and>
     roleAssignment (snd X) = roleAssignment s2 \<and> unitReward (snd X) = unitReward s2 \<and>
     baseAmount (snd X) = baseAmount s2 \<and> capacity (reserve (snd X)) = capacity (reserve s2) \<and> creationFee (snd X) = creationFee s2"
    using payout_frame[of s2 sub "fst X" "snd X"] by (auto simp: X_def split: if_splits)
  have s2sub: "submissions s2 = (submissions s)(i \<mapsto> sub\<lparr>status := Approved, rewarded := True\<rparr>)"
    by (rule ext) (simp add: s2_def creditOnApproval_submissions s1_def)
  have fr2: "submissionCount s2 = submissionCount s \<and> reserve s2 = reserve s \<and>
     roleAssignment s2 = roleAssignment s \<and> unitReward s2 = unitReward s \<and> baseAmount s2 = baseAmount s
     \<and> creationFee s2 = creationFee s"
    using creditOnApproval_frame[of s1 i] by (simp add: s2_def s1_def)
  show ?thesis using sub res fr3 s2sub fr2 by auto
qed

lemma approve_within:
  assumes "approve s i actor = Inr (ev, s')" "reserveWithinCap s"
  shows "reserveWithinCap s'"
proof -
  from assms(1) obtain sub where sub: "canVerify s actor" "submissions s i = Some sub" "status sub = Pending"
    by (auto simp: approve_def split: if_splits option.splits)
  define s2 where "s2 = creditOnApproval (s\<lparr>submissions := (submissions s)(i \<mapsto> sub\<lparr>status := Approved\<rparr>)\<rparr>) i"
  have w2: "reserveWithinCap s2"
    using assms(2) creditOnApproval_frame[of "s\<lparr>submissions := (submissions s)(i \<mapsto> sub\<lparr>status := Approved\<rparr>)\<rparr>" i]
    by (simp add: reserveWithinCap_def s2_def)
  from assms(1) approve_unfold[OF sub]
  have "s' = snd (if hasRecyclables sub then payoutIfEligible s2 sub else (NotEligible, s2))"
    by (auto simp: s2_def split: if_splits)
  then show ?thesis
    using w2 payout_within[of s2 sub "fst (payoutIfEligible s2 sub)" "snd (payoutIfEligible s2 sub)"]
    by (auto split: if_splits)
qed

lemma reject_Inr:
  "reject s i actor = Inr (ev, s') \<Longrightarrow>
     \<exists>sub. canVerify s actor \<and> submissions s i = Some sub \<and> status sub = Pending \<and>
       s' = s\<lparr>submissions := (submissions s)(i \<mapsto> sub\<lparr>status := Rejected\<rparr>)\<rparr> \<and>
       newStatus ev = Rejected \<and> eventSubmitter ev = submitter sub"
  by (auto simp: reject_def split: if_splits option.splits)

lemma claim_Inr:
  "claim s a = Inr (n, s') \<Longrightarrow>
     n = accrued s a \<and> n \<noteq> 0 \<and>
     s' = s\<lparr>rewards := (rewards s)(a := (\<lambda>_. 0)), transferred := (transferred s)(a := transferred s a + n)\<rparr>"
  by (auto simp: claim_def Let_def split: if_splits)

lemma syncReserve_Inr:
  "syncReserve s c actor = Inr s' \<Longrightarrow>
     s' = s\<lparr>reserve := (reserve s)\<lparr>capacity := max c (distributed (reserve s))\<rparr>\<rparr>"
  by (auto simp: syncReserve_def split: if_splits)

lemma admin_ops_Inr:
  "grantRole s r a actor = Inr s' \<Longrightarrow> \<exists>f. s' = s\<lparr>roleAssignment := f\<rparr>"
  "revokeRole s r a actor = Inr s' \<Longrightarrow> \<exists>f. s' = s\<lparr>roleAssignment := f\<rparr>"
  "updateTreasury s payee actor = Inr s' \<Longrightarrow> \<exists>f. s' = s\<lparr>creationFee := f\<rparr>"
  "setFee s n b actor = Inr s' \<Longrightarrow> \<exists>f. s' = s\<lparr>creationFee := f\<rparr>"
  by (auto simp: grantRole_def revokeRole_def updateTreasury_def setFee_def split: if_splits)

subsection \<open>The invariants hold after every transaction\<close>

lemma evolves_refl: "evolves sub sub" by (simp add: evolves_def)

lemma map_sum_id_Inr: "map_sum id g x = Inr y \<longleftrightarrow> (\<exists>z. x = Inr z \<and> y = g z)"
  by (cases x) auto

lemma map_sum_id_Inl: "map_sum id g x = Inl e \<longleftrightarrow> x = Inl e"
  by (cases x) auto

lemma step_effect:
  assumes "step s operation = Inr (r, s')" "invariant s"
  shows "invariant s' \<and>
    (\<forall>i sub. submissions s i = Some sub \<longrightarrow> (\<exists>sub'. submissions s' i = Some sub' \<and> evolves sub sub'))"
proof (cases operation)
  case (Create who paid now b a loc rep refOpt)
  with assms(1) obtain i where c: "create s who paid now b a loc rep refOpt = Inr (i, s')"
    by (auto simp: step_def map_sum_id_Inr)
  from create_Inr[OF c] assms(2) show ?thesis
    by (auto simp: invariant_def logBounded_def pendingUnrewarded_def reserveWithinCap_def evolves_def split: if_splits)
next
  case (AttachRecyclables i p rc)
  with assms(1) have c: "attachRecyclables s i p rc = Inr s'"
    by (auto simp: step_def map_sum_id_Inr)
  from attach_Inr[OF c] assms(2) show ?thesis
    by (auto simp: invariant_def logBounded_def pendingUnrewarded_def reserveWithinCap_def evolves_def split: if_splits)
next
  case (Approve i actor)
  with assms(1) obtain ev where c: "approve s i actor = Inr (ev, s')"
    by (auto simp: step_def map_sum_id_Inr)
  from approve_Inr[OF c] approve_within[OF c] assms(2) show ?thesis
    by (auto simp: invariant_def logBounded_def pendingUnrewarded_def evolves_def split: if_splits)
next
  case (Reject i actor)
  with assms(1) obtain ev where c: "reject s i actor = Inr (ev, s')"
    by (auto simp: step_def map_sum_id_Inr)
  from reject_Inr[OF c] assms(2) show ?thesis
    by (auto simp: invariant_def logBounded_def pendingUnrewarded_def reserveWithinCap_def evolves_def split: if_splits)
next
  case (Claim a)
  with assms(1) obtain n where c: "claim s a = Inr (n, s')"
    by (auto simp: step_def map_sum_id_Inr)
  from claim_Inr[OF c] assms(2) show ?thesis
    by (auto simp: invariant_def logBounded_def pendingUnrewarded_def reserveWithinCap_def evolves_def split: if_splits)
next
  case (SyncReserve c actor)
  with assms(1) have c: "syncReserve s c actor = Inr s'"
    by (auto simp: step_def map_sum_id_Inr)
  from syncReserve_Inr[OF c] assms(2) show ?thesis
    by (auto simp: invariant_def logBounded_def pendingUnrewarded_def reserveWithinCap_def evolves_def split: if_splits)
next
  case (GrantRole rl a actor)
  with assms(1) have c: "grantRole s rl a actor = Inr s'"
    by (auto simp: step_def map_sum_id_Inr)
  from admin_ops_Inr(1)[OF c] assms(2) show ?thesis
    by (auto simp: invariant_def logBounded_def pendingUnrewarded_def reserveWithinCap_def evolves_def split: if_splits)
next
  case (RevokeRole rl a actor)
  with assms(1) have c: "revokeRole s rl a actor = Inr s'"
    by (auto simp: step_def map_sum_id_Inr)
  from admin_ops_Inr(2)[OF c] assms(2) show ?thesis
    by (auto simp: invariant_def logBounded_def pendingUnrewarded_def reserveWithinCap_def evolves_def split: if_splits)
next
  case (UpdateTreasury payee actor)
  with assms(1) have c: "updateTreasury s payee actor = Inr s'"
    by (auto simp: step_def map_sum_id_Inr)
  from admin_ops_Inr(3)[OF c] assms(2) show ?thesis
    by (auto simp: invariant_def logBounded_def pendingUnrewarded_def reserveWithinCap_def evolves_def split: if_splits)
next
  case (SetFee n b actor)
  with assms(1) have c: "setFee s n b actor = Inr s'"
    by (auto simp: step_def map_sum_id_Inr)
  from admin_ops_Inr(4)[OF c] assms(2) show ?thesis
    by (auto simp: invariant_def logBounded_def pendingUnrewarded_def reserveWithinCap_def evolves_def split: if_splits)
qed

lemma evolves_trans: "evolves a b \<Longrightarrow> evolves b c \<Longrightarrow> evolves a c"
  by (auto simp: evolves_def)

lemma exec_effect:
  assumes "invariant s"
  shows "invariant (snd (exec s operation)) \<and>
    (\<forall>i sub. submissions s i = Some sub \<longrightarrow>
       (\<exists>sub'. submissions (snd (exec s operation)) i = Some sub' \<and> evolves sub sub'))"
proof (cases "step s operation")
  case (Inl e)
  then show ?thesis using assms by (simp add: exec_def evolves_refl)
next
  case (Inr p)
  obtain r s' where p: "p = (r, s')" by (cases p)
  with Inr step_effect[of s operation r s'] assms show ?thesis by (simp add: exec_def)
qed

lemma run_effect:
  "invariant s \<Longrightarrow>
     invariant (run s ops) \<and>
     (\<forall>i sub. submissions s i = Some sub \<longrightarrow>
        (\<exists>sub'. submissions (run s ops) i = Some sub' \<and> evolves sub sub'))"
proof (induction ops arbitrary: s)
  case Nil
  then show ?case by (simp add: evolves_refl)
next
  case (Cons operation ops)
  from exec_effect[OF Cons.prems, of operation]
  have inv1: "invariant (snd (exec s operation))"
    and ev1: "\<And>i sub. submissions s i = Some sub \<Longrightarrow>
       \<exists>sub'. submissions (snd (exec s operation)) i = Some sub' \<and> evolves sub sub'"
    by blast+
  from Cons.IH[OF inv1]
  have inv2: "invariant (run (snd (exec s operation)) ops)"
    and ev2: "\<And>i sub. submissions (snd (exec s operation)) i = Some sub \<Longrightarrow>
       \<exists>sub'. submissions (run (snd (exec s operation)) ops) i = Some sub' \<and> evolves sub sub'"
    by blast+
  show ?case
  proof (intro conjI allI impI)
    show "invariant (run s (operation # ops))" using inv2 by simp
  next
    fix i sub assume "submissions s i = Some sub"
    from ev1[OF this] obtain sub1 where s1: "submissions (snd (exec s operation)) i = Some sub1" "evolves sub sub1"
      by blast
    from ev2[OF s1(1)] obtain sub2 where s2: "submissions (run (snd (exec s operation)) ops) i = Some sub2" "evolves sub1 sub2"
      by blast
    show "\<exists>sub'. submissions (run s (operation # ops)) i = Some sub' \<and> evolves sub sub'"
      using s2 s1(2) evolves_trans by auto
  qed
qed

lemma reachable_invariant: "invariant (run (genesis deployer cap unit base bonus refAmount) history)"
  using run_effect[OF invariant_genesis] by blast

subsection \<open>One-way status\<close>

lemma statusOf_Some: "statusOf s i = Some st \<longleftrightarrow> (\<exists>sub. submissions s i = Some sub \<and> status sub = st)"
  by (auto simp: statusOf_def)

lemma finalised_stays:
  assumes "invariant s" "statusOf s i = Some st" "st \<noteq> Pending"
  shows "statusOf (run s later) i = Some st"
proof -
  from assms(2) obtain sub where sub: "submissions s i = Some sub" "status sub = st"
    by (auto simp: statusOf_Some)
  from run_effect[OF assms(1), of later] sub(1)
  obtain sub' where "submissions (run s later) i = Some sub'" "evolves sub sub'" by blast
  with sub(2) assms(3) show ?thesis by (auto simp: statusOf_Some evolves_def)
qed

lemma finalised_approve:
  "statusOf s i = Some st \<Longrightarrow> st \<noteq> Pending \<Longrightarrow>
     exec s (Approve i actor) = (Inl (if canVerify s actor then InvalidState else Unauthorized), s)"
  by (auto simp: exec_def step_def approve_def statusOf_Some)

lemma finalised_reject:
  "statusOf s i = Some st \<Longrightarrow> st \<noteq> Pending \<Longrightarrow>
     exec s (Reject i actor) = (Inl (if canVerify s actor then InvalidState else Unauthorized), s)"
  by (auto simp: exec_def step_def reject_def statusOf_Some)

lemma transition_shape:
  assumes "invariant s" "statusOf s i = Some a" "statusOf (snd (exec s operation)) i = Some b" "a \<noteq> b"
  shows "a = Pending \<and> (b = Approved \<or> b = Rejected)"
proof -
  from assms(2) obtain sub where sub: "submissions s i = Some sub" "status sub = a"
    by (auto simp: statusOf_Some)
  from exec_effect[OF assms(1), of operation] sub(1)
  obtain sub' where s': "submissions (snd (exec s operation)) i = Some sub'" "evolves sub sub'" by blast
  with assms(3) have "status sub' = b" by (auto simp: statusOf_Some)
  with s'(2) sub(2) assms(4) have "a = Pending \<and> b \<noteq> Pending" by (auto simp: evolves_def)
  then show ?thesis by (cases b) auto
qed

text \<open>
  Claim C1, as amended. In every store reached from deployment, once the status of a
  submission is Approved or Rejected no later sequence of operations changes it; a
  further approve or reject on it fails and leaves the whole store as it was, with
  InvalidState when the caller holds ADMIN or VERIFIER and with Unauthorized otherwise
  (the authorization guard comes first); and whenever one transaction changes the status
  of a submission, the change is from Pending to Approved or from Pending to Rejected.
\<close>

theorem finalised_status_is_terminal:
  fixes history :: "operation list" and deployer :: address
    and cap unit base bonus refAmount :: nat
  defines "s \<equiv> run (genesis deployer cap unit base bonus refAmount) history"
  shows "(statusOf s i = Some st \<and> st \<noteq> Pending \<longrightarrow>
            (\<forall>later. statusOf (run s later) i = Some st)
          \<and> exec s (Approve i actor) = (Inl (if canVerify s actor then InvalidState else Unauthorized), s)
          \<and> exec s (Reject i actor) = (Inl (if canVerify s actor then InvalidState else Unauthorized), s))
       \<and> (\<forall>operation a b. statusOf s i = Some a \<and> statusOf (snd (exec s operation)) i = Some b \<and> a \<noteq> b
             \<longrightarrow> a = Pending \<and> (b = Approved \<or> b = Rejected))"
proof -
  have inv: "invariant s" unfolding s_def by (rule reachable_invariant)
  show ?thesis
    using finalised_stays[OF inv] finalised_approve finalised_reject transition_shape[OF inv]
    by blast
qed

text \<open>The definitions unfolded to evaluate a concrete history.\<close>

lemmas eval_defs = exec_def step_def grantRole_def hasRole_def genesis_def create_def approve_def
  reject_def canVerify_def creditOnApproval_def payoutIfEligible_def hasRecyclables_def credit_def
  Let_def statusOf_def claim_def accrued_def categories_def attachRecyclables_def

lemma example_status: "statusOf (run (genesis ''0xD'' 5000 5 10 5 3) exampleHistory) 0 = Some Approved"
  by (simp add: exampleHistory_def eval_defs)

lemma example_verifier: "canVerify (run (genesis ''0xD'' 5000 5 10 5 3) exampleHistory) ''0xV''"
  by (simp add: exampleHistory_def eval_defs)

lemma example_stranger: "\<not> canVerify (run (genesis ''0xD'' 5000 5 10 5 3) exampleHistory) ''0xEve''"
  by (simp add: exampleHistory_def eval_defs)

text \<open>
  An instance: after \<open>exampleHistory\<close> submission 0 is Approved; it stays so under
  three more operations, the verifier's second approve fails with InvalidState and a
  stranger's reject with Unauthorized. After \<open>pendingHistory\<close> submission 0 is Pending
  and one approval moves it to Approved.
\<close>

theorem finalised_status_is_terminal_witness:
  "statusOf (run (genesis ''0xD'' 5000 5 10 5 3) exampleHistory) 0 = Some Approved
   \<and> Approved \<noteq> Pending
   \<and> statusOf (run (run (genesis ''0xD'' 5000 5 10 5 3) exampleHistory)
        [Reject 0 ''0xV'', Claim ''0xU'', Approve 0 ''0xV'']) 0 = Some Approved
   \<and> exec (run (genesis ''0xD'' 5000 5 10 5 3) exampleHistory) (Approve 0 ''0xV'')
       = (Inl InvalidState, run (genesis ''0xD'' 5000 5 10 5 3) exampleHistory)
   \<and> exec (run (genesis ''0xD'' 5000 5 10 5 3) exampleHistory) (Reject 0 ''0xEve'')
       = (Inl Unauthorized, run (genesis ''0xD'' 5000 5 10 5 3) exampleHistory)
   \<and> statusOf (run (genesis ''0xD'' 5000 5 10 5 3) pendingHistory) 0 = Some Pending
   \<and> statusOf (snd (exec (run (genesis ''0xD'' 5000 5 10 5 3) pendingHistory) (Approve 0 ''0xV''))) 0
       = Some Approved"
proof -
  let ?s = "run (genesis ''0xD'' 5000 5 10 5 3) exampleHistory"
  have h: "statusOf ?s 0 = Some Approved \<and> Approved \<noteq> Pending"
    using example_status by simp
  note verifier = finalised_status_is_terminal
    [of "''0xD''" 5000 5 10 5 3 exampleHistory 0 Approved "''0xV''", THEN conjunct1, rule_format, OF h]
  note stranger = finalised_status_is_terminal
    [of "''0xD''" 5000 5 10 5 3 exampleHistory 0 Approved "''0xEve''", THEN conjunct1, rule_format, OF h]
  have later: "statusOf (run ?s [Reject 0 ''0xV'', Claim ''0xU'', Approve 0 ''0xV'']) 0 = Some Approved"
    using verifier by blast
  have a: "exec ?s (Approve 0 ''0xV'') = (Inl InvalidState, ?s)"
    using verifier example_verifier by simp
  have r: "exec ?s (Reject 0 ''0xEve'') = (Inl Unauthorized, ?s)"
    using stranger example_stranger by simp
  let ?p = "run (genesis ''0xD'' 5000 5 10 5 3) pendingHistory"
  have before: "statusOf ?p 0 = Some Pending"
    by (simp add: pendingHistory_def eval_defs)
  have after: "statusOf (snd (exec ?p (Approve 0 ''0xV''))) 0 = Some Approved"
    by (simp add: pendingHistory_def eval_defs)
  have moved: "Pending = Pending \<and> (Approved = Approved \<or> Approved = Rejected)"
    using finalised_status_is_terminal
      [of "''0xD''" 5000 5 10 5 3 pendingHistory 0 Approved "''0xV''", THEN conjunct2, rule_format,
       of Pending "Approve 0 ''0xV''" Approved]
      before after
    by simp
  show ?thesis using h later a r before after moved by blast
qed

text \<open>
  The claim as first stated asks for InvalidState on every further approve or reject.
  A caller without a verifying role gets Unauthorized instead, also on a finalised
  submission.
\<close>

theorem finalised_call_counterexample:
  "statusOf (run (genesis ''0xD'' 5000 5 10 5 3) exampleHistory) 0 = Some Approved
   \<and> fst (exec (run (genesis ''0xD'' 5000 5 10 5 3) exampleHistory) (Approve 0 ''0xEve'')) = Inl Unauthorized
   \<and> fst (exec (run (genesis ''0xD'' 5000 5 10 5 3) exampleHistory) (Approve 0 ''0xEve'')) \<noteq> Inl InvalidState"
  by (simp add: exampleHistory_def eval_defs)

subsection \<open>Rewards credited by an approval\<close>

lemma creditOnApproval_rewards:
  "submissions s i = Some sub \<Longrightarrow> \<not> rewarded sub \<Longrightarrow>
     rewards (creditOnApproval s i) a c =
       rewards s a c
       + (if a = submitter sub \<and> c = BaseImpact then baseAmount s else 0)
       + (if a = submitter sub \<and> c = ImpactReport \<and> impactReportRef sub \<noteq> [] then reportBonus s else 0)
       + (if recordedReferrer sub = Some a \<and> c = Referral then referralAmount s else 0)"
  by (auto simp: creditOnApproval_def Let_def credit_def split: option.splits)

lemma payout_effect:
  "fst (payoutIfEligible s sub) =
      (if int (capacity (reserve s)) - int (distributed (reserve s)) \<ge> int (unitReward s)
       then PaidOut else ReserveExhausted)
   \<and> rewards (snd (payoutIfEligible s sub)) a c =
       rewards s a c + (if fst (payoutIfEligible s sub) = PaidOut \<and> a = submitter sub \<and> c = Recyclables
                        then unitReward s else 0)
   \<and> distributed (reserve (snd (payoutIfEligible s sub))) =
       distributed (reserve s) + (if fst (payoutIfEligible s sub) = PaidOut then unitReward s else 0)"
  by (simp add: payoutIfEligible_def Let_def credit_def)

lemma approve_ledger:
  assumes "approve s i actor = Inr (ev, s')" "submissions s i = Some sub" "\<not> rewarded sub"
  shows "payoutStatus ev = payoutDecision s sub
    \<and> rewards s' a c =
       rewards s a c
       + (if a = submitter sub \<and> c = BaseImpact then baseAmount s else 0)
       + (if a = submitter sub \<and> c = ImpactReport \<and> impactReportRef sub \<noteq> [] then reportBonus s else 0)
       + (if recordedReferrer sub = Some a \<and> c = Referral then referralAmount s else 0)
       + (if payoutStatus ev = PaidOut \<and> a = submitter sub \<and> c = Recyclables then unitReward s else 0)
    \<and> distributed (reserve s') =
       distributed (reserve s) + (if payoutStatus ev = PaidOut then unitReward s else 0)"
proof -
  from assms(1,2) have sub: "canVerify s actor" "submissions s i = Some sub" "status sub = Pending"
    by (auto simp: approve_def split: if_splits option.splits)
  define s1 where "s1 = s\<lparr>submissions := (submissions s)(i \<mapsto> sub\<lparr>status := Approved\<rparr>)\<rparr>"
  define s2 where "s2 = creditOnApproval s1 i"
  have r2: "\<And>a c. rewards s2 a c = rewards s a c
       + (if a = submitter sub \<and> c = BaseImpact then baseAmount s else 0)
       + (if a = submitter sub \<and> c = ImpactReport \<and> impactReportRef sub \<noteq> [] then reportBonus s else 0)
       + (if recordedReferrer sub = Some a \<and> c = Referral then referralAmount s else 0)"
    using creditOnApproval_rewards[of s1 i "sub\<lparr>status := Approved\<rparr>"] assms(3)
    by (simp add: s2_def s1_def)
  have f2: "reserve s2 = reserve s" "unitReward s2 = unitReward s"
    using creditOnApproval_frame[of s1 i] by (simp_all add: s2_def s1_def)
  from assms(1) approve_unfold[OF sub]
  have res: "s' = snd (if hasRecyclables sub then payoutIfEligible s2 sub else (NotEligible, s2))"
     "payoutStatus ev = fst (if hasRecyclables sub then payoutIfEligible s2 sub else (NotEligible, s2))"
    by (auto simp: s2_def s1_def split: if_splits)
  show ?thesis
  proof (cases "hasRecyclables sub")
    case True
    with res have *: "s' = snd (payoutIfEligible s2 sub)" "payoutStatus ev = fst (payoutIfEligible s2 sub)"
      by simp_all
    show ?thesis
      using payout_effect[of s2 sub a c] True
      unfolding * r2 f2 payoutDecision_def by simp
  next
    case False
    with res have *: "s' = s2" "payoutStatus ev = NotEligible" by simp_all
    show ?thesis using False unfolding * r2 f2 payoutDecision_def by simp
  qed
qed

text \<open>
  Claim C2. Two approvals of the same Pending submission by two authorized callers are
  two atomic transactions, ordered one way or the other (section 5). In either order the
  first succeeds and the second fails with InvalidState, leaving the store of the first
  untouched; both orders end in the same store, in which the submission is Approved and
  the base-impact category of the submitter has grown by exactly one base amount.
\<close>

theorem concurrent_approve_credits_once:
  fixes history :: "operation list" and deployer :: address
    and cap unit base bonus refAmount :: nat
  defines "s \<equiv> run (genesis deployer cap unit base bonus refAmount) history"
  assumes "submissions s i = Some sub" and "status sub = Pending"
    and "canVerify s a1" and "canVerify s a2"
  shows "\<exists>ev s1.
           exec s (Approve i a1) = (Inr (Verified ev), s1)
         \<and> exec s1 (Approve i a2) = (Inl InvalidState, s1)
         \<and> exec s (Approve i a2) = (Inr (Verified ev), s1)
         \<and> exec s1 (Approve i a1) = (Inl InvalidState, s1)
         \<and> statusOf s1 i = Some Approved
         \<and> rewards s1 (submitter sub) BaseImpact
             = rewards s (submitter sub) BaseImpact + baseAmount s"
proof -
  have inv: "invariant s" unfolding s_def by (rule reachable_invariant)
  then have nr: "\<not> rewarded sub"
    using assms(2,3) by (auto simp: invariant_def pendingUnrewarded_def)
  obtain ev s1 where ap: "approve s i a1 = Inr (ev, s1)"
    using approve_unfold[OF assms(4) assms(2) assms(3)] by blast
  have ap2: "approve s i a2 = Inr (ev, s1)"
    using approve_unfold[OF assms(5) assms(2) assms(3)] approve_unfold[OF assms(4) assms(2) assms(3)] ap
    by simp
  from approve_Inr[OF ap] assms(2)
  have st1: "statusOf s1 i = Some Approved" and roles1: "roleAssignment s1 = roleAssignment s"
    by (auto simp: statusOf_def)
  have cv: "canVerify s1 a1" "canVerify s1 a2"
    using assms(4,5) roles1 by (simp_all add: canVerify_def hasRole_def)
  have e1: "exec s (Approve i a1) = (Inr (Verified ev), s1)"
    using ap by (simp add: exec_def step_def)
  have e2: "exec s (Approve i a2) = (Inr (Verified ev), s1)"
    using ap2 by (simp add: exec_def step_def)
  have f1: "exec s1 (Approve i a2) = (Inl InvalidState, s1)"
    using finalised_approve[OF st1, of a2] cv by simp
  have f2: "exec s1 (Approve i a1) = (Inl InvalidState, s1)"
    using finalised_approve[OF st1, of a1] cv by simp
  have led: "rewards s1 (submitter sub) BaseImpact = rewards s (submitter sub) BaseImpact + baseAmount s"
    using approve_ledger[OF ap assms(2) nr, of "submitter sub" BaseImpact] by simp
  show ?thesis using e1 e2 f1 f2 st1 led by blast
qed

lemma pending_sub:
  "submissions (run (genesis ''0xD'' 5000 5 10 5 3) pendingHistory) 0 =
     Some \<lparr>submissionId = 0, submitter = ''0xU'', beforeEvidenceRef = ''before'',
           afterEvidenceRef = ''after'', recyclablesEvidenceRef = None,
           recyclablesReceiptRef = None, impactReportRef = ''report'',
           recordedReferrer = Some ''0xR'', location = (1000000, 2000000), createdAt = 100,
           status = Pending, rewarded = False\<rparr>"
  by (simp add: pendingHistory_def eval_defs)

lemma pending_roles:
  "canVerify (run (genesis ''0xD'' 5000 5 10 5 3) pendingHistory) ''0xV''"
  "canVerify (run (genesis ''0xD'' 5000 5 10 5 3) pendingHistory) ''0xW''"
  by (simp_all add: pendingHistory_def eval_defs)

lemma pending_ledger:
  "rewards (run (genesis ''0xD'' 5000 5 10 5 3) pendingHistory) ''0xU'' BaseImpact = 0"
  "baseAmount (run (genesis ''0xD'' 5000 5 10 5 3) pendingHistory) = 10"
  by (simp_all add: pendingHistory_def eval_defs)

theorem concurrent_approve_credits_once_witness:
  "\<exists>ev s1.
       exec (run (genesis ''0xD'' 5000 5 10 5 3) pendingHistory) (Approve 0 ''0xV'') = (Inr (Verified ev), s1)
     \<and> exec s1 (Approve 0 ''0xW'') = (Inl InvalidState, s1)
     \<and> exec (run (genesis ''0xD'' 5000 5 10 5 3) pendingHistory) (Approve 0 ''0xW'') = (Inr (Verified ev), s1)
     \<and> exec s1 (Approve 0 ''0xV'') = (Inl InvalidState, s1)
     \<and> statusOf s1 0 = Some Approved
     \<and> rewards s1 ''0xU'' BaseImpact = 10"
  using concurrent_approve_credits_once
    [of "''0xD''" 5000 5 10 5 3 pendingHistory 0 _ "''0xV''" "''0xW''", OF pending_sub _ pending_roles]
    pending_ledger
  by simp

subsection \<open>The capped reserve\<close>

lemma creditOnApproval_recyclables:
  "rewards (creditOnApproval s i) a Recyclables = rewards s a Recyclables"
  by (auto simp: creditOnApproval_def Let_def credit_def split: option.splits)

lemma approve_reserve:
  assumes "approve s i actor = Inr (ev, s')" "submissions s i = Some sub"
  shows "payoutStatus ev = payoutDecision s sub
    \<and> distributed (reserve s') =
       distributed (reserve s) + (if payoutStatus ev = PaidOut then unitReward s else 0)
    \<and> rewards s' a Recyclables =
       rewards s a Recyclables + (if payoutStatus ev = PaidOut \<and> a = submitter sub then unitReward s else 0)"
proof -
  from assms have sub: "canVerify s actor" "submissions s i = Some sub" "status sub = Pending"
    by (auto simp: approve_def split: if_splits option.splits)
  define s1 where "s1 = s\<lparr>submissions := (submissions s)(i \<mapsto> sub\<lparr>status := Approved\<rparr>)\<rparr>"
  define s2 where "s2 = creditOnApproval s1 i"
  have r2: "rewards s2 a Recyclables = rewards s a Recyclables"
    using creditOnApproval_recyclables[of s1 i a] by (simp add: s2_def s1_def)
  have f2: "reserve s2 = reserve s" "unitReward s2 = unitReward s"
    using creditOnApproval_frame[of s1 i] by (simp_all add: s2_def s1_def)
  from assms(1) approve_unfold[OF sub]
  have res: "s' = snd (if hasRecyclables sub then payoutIfEligible s2 sub else (NotEligible, s2))"
     "payoutStatus ev = fst (if hasRecyclables sub then payoutIfEligible s2 sub else (NotEligible, s2))"
    by (auto simp: s2_def s1_def split: if_splits)
  show ?thesis
  proof (cases "hasRecyclables sub")
    case True
    with res have *: "s' = snd (payoutIfEligible s2 sub)" "payoutStatus ev = fst (payoutIfEligible s2 sub)"
      by simp_all
    show ?thesis
      using payout_effect[of s2 sub a Recyclables] True
      unfolding * r2 f2 payoutDecision_def by simp
  next
    case False
    with res have *: "s' = s2" "payoutStatus ev = NotEligible" by simp_all
    show ?thesis using False unfolding * r2 f2 payoutDecision_def by simp
  qed
qed

lemma eligible_Some:
  "eligible s i \<longleftrightarrow> (\<exists>sub. submissions s i = Some sub \<and> status sub = Pending \<and> hasRecyclables sub)"
  by (auto simp: eligible_def split: option.splits)

lemma approve_exhausted:
  assumes "canVerify s actor" "eligible s i"
    "int (capacity (reserve s)) - int (distributed (reserve s)) < int (unitReward s)"
  shows "\<exists>ev s'. exec s (Approve i actor) = (Inr (Verified ev), s')
     \<and> newStatus ev = Approved \<and> payoutStatus ev = ReserveExhausted
     \<and> statusOf s' i = Some Approved \<and> reserve s' = reserve s
     \<and> (\<forall>a. rewards s' a Recyclables = rewards s a Recyclables)"
proof -
  from assms(2) obtain sub where sub: "submissions s i = Some sub" "status sub = Pending" "hasRecyclables sub"
    by (auto simp: eligible_Some)
  obtain ev s' where ap: "approve s i actor = Inr (ev, s')"
    using approve_unfold[OF assms(1) sub(1,2)] by blast
  have dec: "payoutStatus ev = ReserveExhausted"
    using approve_reserve[OF ap sub(1)] sub(3) assms(3) by (simp add: payoutDecision_def)
  have d: "distributed (reserve s') = distributed (reserve s)"
    using approve_reserve[OF ap sub(1)] dec by simp
  have c: "capacity (reserve s') = capacity (reserve s)"
    using approve_Inr[OF ap] by blast
  have res: "reserve s' = reserve s" using c d by (simp add: ReserveAccount.equality)
  have rec: "\<forall>a. rewards s' a Recyclables = rewards s a Recyclables"
    using approve_reserve[OF ap sub(1)] dec by simp
  have st: "statusOf s' i = Some Approved" "newStatus ev = Approved"
    using approve_Inr[OF ap] sub(1) by (auto simp: statusOf_def)
  have e: "exec s (Approve i actor) = (Inr (Verified ev), s')"
    using ap by (simp add: exec_def step_def)
  show ?thesis using e dec res rec st by blast
qed

lemma approveAll_eligible:
  "canVerify s actor \<Longrightarrow> distinct ids \<Longrightarrow> \<forall>i\<in>set ids. eligible s i \<Longrightarrow>
   distributed (reserve s) + length ids * unitReward s \<le> capacity (reserve s) \<Longrightarrow>
   \<exists>s'. approveAll s actor ids = Inr s'
      \<and> distributed (reserve s') = distributed (reserve s) + length ids * unitReward s
      \<and> capacity (reserve s') = capacity (reserve s) \<and> unitReward s' = unitReward s
      \<and> roleAssignment s' = roleAssignment s
      \<and> (\<forall>j. j \<notin> set ids \<longrightarrow> submissions s' j = submissions s j)"
proof (induction ids arbitrary: s)
  case Nil
  then show ?case by simp
next
  case (Cons i ids)
  from Cons.prems(3) obtain sub where sub: "submissions s i = Some sub" "status sub = Pending" "hasRecyclables sub"
    by (auto simp: eligible_Some)
  obtain ev s1 where ap: "approve s i actor = Inr (ev, s1)"
    using approve_unfold[OF Cons.prems(1) sub(1,2)] by blast
  from Cons.prems(4) have room: "distributed (reserve s) + unitReward s \<le> capacity (reserve s)"
    by simp
  have dec: "payoutStatus ev = PaidOut"
    using approve_reserve[OF ap sub(1)] sub(3) room by (simp add: payoutDecision_def)
  have d1: "distributed (reserve s1) = distributed (reserve s) + unitReward s"
    using approve_reserve[OF ap sub(1)] dec by simp
  from approve_Inr[OF ap] sub(1)
  have fr: "submissions s1 = (submissions s)(i \<mapsto> sub\<lparr>status := Approved, rewarded := True\<rparr>)"
      "roleAssignment s1 = roleAssignment s" "unitReward s1 = unitReward s"
      "capacity (reserve s1) = capacity (reserve s)"
    by auto
  have cv1: "canVerify s1 actor" using Cons.prems(1) fr(2) by (simp add: canVerify_def hasRole_def)
  have el1: "\<forall>j\<in>set ids. eligible s1 j"
    using Cons.prems(2,3) fr(1) by (auto simp: eligible_def)
  have room1: "distributed (reserve s1) + length ids * unitReward s1 \<le> capacity (reserve s1)"
    using Cons.prems(4) d1 fr(3,4) by simp
  from Cons.IH[OF cv1 _ el1 room1] Cons.prems(2)
  obtain s' where s': "approveAll s1 actor ids = Inr s'"
      "distributed (reserve s') = distributed (reserve s1) + length ids * unitReward s1"
      "capacity (reserve s') = capacity (reserve s1)" "unitReward s' = unitReward s1"
      "roleAssignment s' = roleAssignment s1"
      "\<forall>j. j \<notin> set ids \<longrightarrow> submissions s' j = submissions s1 j"
    by auto
  have "approveAll s actor (i # ids) = Inr s'" using ap s'(1) by simp
  moreover have "distributed (reserve s') = distributed (reserve s) + length (i # ids) * unitReward s"
    using s'(2) d1 fr(3) by simp
  moreover have "\<forall>j. j \<notin> set (i # ids) \<longrightarrow> submissions s' j = submissions s j"
    using s'(6) fr(1) by simp
  ultimately show ?case using s'(3,4,5) fr(2,3,4) by simp
qed

lemma reserve_scenario_general:
  assumes "reserve s = \<lparr>capacity = 5000, distributed = 0\<rparr>" "unitReward s = 5" "canVerify s actor"
    "length ids = 1000" "distinct (ids @ [final])" "\<forall>i\<in>set (ids @ [final]). eligible s i"
  shows "\<exists>s1 ev s2. approveAll s actor ids = Inr s1 \<and> distributed (reserve s1) = 5000
      \<and> exec s1 (Approve final actor) = (Inr (Verified ev), s2)
      \<and> payoutStatus ev = ReserveExhausted \<and> statusOf s2 final = Some Approved
      \<and> distributed (reserve s2) = 5000
      \<and> (\<forall>a. rewards s2 a Recyclables = rewards s1 a Recyclables)"
proof -
  have room: "distributed (reserve s) + length ids * unitReward s \<le> capacity (reserve s)"
    using assms(1,2,4) by simp
  from approveAll_eligible[OF assms(3) _ _ room] assms(5,6)
  obtain s1 where s1: "approveAll s actor ids = Inr s1"
      "distributed (reserve s1) = distributed (reserve s) + length ids * unitReward s"
      "capacity (reserve s1) = capacity (reserve s)" "unitReward s1 = unitReward s"
      "roleAssignment s1 = roleAssignment s"
      "\<forall>j. j \<notin> set ids \<longrightarrow> submissions s1 j = submissions s j"
    by auto
  have d1: "distributed (reserve s1) = 5000" using s1(2) assms(1,2,4) by simp
  have cv1: "canVerify s1 actor" using assms(3) s1(5) by (simp add: canVerify_def hasRole_def)
  have el: "eligible s1 final" using assms(5,6) s1(6) by (auto simp: eligible_def)
  have ex: "int (capacity (reserve s1)) - int (distributed (reserve s1)) < int (unitReward s1)"
    using d1 s1(3,4) assms(1,2) by simp
  from approve_exhausted[OF cv1 el ex] d1 s1(1) show ?thesis by (metis)
qed

text \<open>
  Claim C5. In every store reached from deployment the reserve has distributed no more
  than its capacity. When the remaining reserve is below the unit reward, approving an
  eligible submission still succeeds and sets it to Approved, reports ReserveExhausted,
  leaves the reserve as it was and credits no recyclables reward to anyone. With capacity
  5000 and unit reward 5, after 1000 eligible approvals 5000 is distributed, and the next
  eligible approval is of that kind.
\<close>

theorem reserve_capped_and_exhaustion_soft:
  "reserveWithinCap (run (genesis deployer cap unit base bonus refAmount) history)
   \<and> (canVerify s actor \<and> eligible s i
        \<and> int (capacity (reserve s)) - int (distributed (reserve s)) < int (unitReward s)
      \<longrightarrow> (\<exists>ev s'. exec s (Approve i actor) = (Inr (Verified ev), s')
             \<and> newStatus ev = Approved \<and> payoutStatus ev = ReserveExhausted
             \<and> statusOf s' i = Some Approved \<and> reserve s' = reserve s
             \<and> (\<forall>a. rewards s' a Recyclables = rewards s a Recyclables)))
   \<and> (reserve s = \<lparr>capacity = 5000, distributed = 0\<rparr> \<and> unitReward s = 5 \<and> canVerify s actor
        \<and> length ids = 1000 \<and> distinct (ids @ [final]) \<and> (\<forall>j\<in>set (ids @ [final]). eligible s j)
      \<longrightarrow> (\<exists>s1 ev s2. approveAll s actor ids = Inr s1 \<and> distributed (reserve s1) = 5000
             \<and> exec s1 (Approve final actor) = (Inr (Verified ev), s2)
             \<and> payoutStatus ev = ReserveExhausted \<and> statusOf s2 final = Some Approved
             \<and> distributed (reserve s2) = 5000
             \<and> (\<forall>a. rewards s2 a Recyclables = rewards s1 a Recyclables)))"
proof (intro conjI impI)
  show "reserveWithinCap (run (genesis deployer cap unit base bonus refAmount) history)"
    using reachable_invariant[of deployer cap unit base bonus refAmount history]
    by (simp add: invariant_def)
next
  assume "canVerify s actor \<and> eligible s i
        \<and> int (capacity (reserve s)) - int (distributed (reserve s)) < int (unitReward s)"
  then show "\<exists>ev s'. exec s (Approve i actor) = (Inr (Verified ev), s')
             \<and> newStatus ev = Approved \<and> payoutStatus ev = ReserveExhausted
             \<and> statusOf s' i = Some Approved \<and> reserve s' = reserve s
             \<and> (\<forall>a. rewards s' a Recyclables = rewards s a Recyclables)"
    using approve_exhausted[of s actor i] by blast
next
  assume "reserve s = \<lparr>capacity = 5000, distributed = 0\<rparr> \<and> unitReward s = 5 \<and> canVerify s actor
        \<and> length ids = 1000 \<and> distinct (ids @ [final]) \<and> (\<forall>j\<in>set (ids @ [final]). eligible s j)"
  then show "\<exists>s1 ev s2. approveAll s actor ids = Inr s1 \<and> distributed (reserve s1) = 5000
             \<and> exec s1 (Approve final actor) = (Inr (Verified ev), s2)
             \<and> payoutStatus ev = ReserveExhausted \<and> statusOf s2 final = Some Approved
             \<and> distributed (reserve s2) = 5000
             \<and> (\<forall>a. rewards s2 a Recyclables = rewards s1 a Recyclables)"
    using reserve_scenario_general[of s actor ids final] by blast
qed

lemma scenario_facts:
  "reserve reserveScenario = \<lparr>capacity = 5000, distributed = 0\<rparr>"
  "unitReward reserveScenario = 5"
  "canVerify reserveScenario ''0xV''"
  "\<forall>j\<in>set ([0..<1000] @ [1000]). eligible reserveScenario j"
  by (simp_all add: reserveScenario_def genesis_def canVerify_def hasRole_def eligible_def
      hasRecyclables_def)

lemma low_reserve_facts:
  "canVerify (reserveScenario\<lparr>reserve := \<lparr>capacity = 5000, distributed = 4998\<rparr>\<rparr>) ''0xV''"
  "eligible (reserveScenario\<lparr>reserve := \<lparr>capacity = 5000, distributed = 4998\<rparr>\<rparr>) 7"
  "int (capacity (reserve (reserveScenario\<lparr>reserve := \<lparr>capacity = 5000, distributed = 4998\<rparr>\<rparr>)))
     - int (distributed (reserve (reserveScenario\<lparr>reserve := \<lparr>capacity = 5000, distributed = 4998\<rparr>\<rparr>)))
     < int (unitReward (reserveScenario\<lparr>reserve := \<lparr>capacity = 5000, distributed = 4998\<rparr>\<rparr>))"
  by (simp_all add: reserveScenario_def genesis_def canVerify_def hasRole_def eligible_def
      hasRecyclables_def)

theorem reserve_capped_and_exhaustion_soft_witness:
  "reserveWithinCap (run (genesis ''0xD'' 5000 5 10 5 3) exampleHistory)
   \<and> (\<exists>ev s'. exec (reserveScenario\<lparr>reserve := \<lparr>capacity = 5000, distributed = 4998\<rparr>\<rparr>) (Approve 7 ''0xV'')
                 = (Inr (Verified ev), s')
             \<and> payoutStatus ev = ReserveExhausted \<and> statusOf s' 7 = Some Approved
             \<and> reserve s' = \<lparr>capacity = 5000, distributed = 4998\<rparr>)
   \<and> (\<exists>s1 ev s2. approveAll reserveScenario ''0xV'' [0..<1000] = Inr s1
             \<and> distributed (reserve s1) = 5000
             \<and> exec s1 (Approve 1000 ''0xV'') = (Inr (Verified ev), s2)
             \<and> payoutStatus ev = ReserveExhausted \<and> statusOf s2 1000 = Some Approved
             \<and> distributed (reserve s2) = 5000
             \<and> rewards s2 ''0xU'' Recyclables = rewards s1 ''0xU'' Recyclables)"
proof -
  note low = reserve_capped_and_exhaustion_soft
    [of "''0xD''" 5000 5 10 5 3 exampleHistory
        "reserveScenario\<lparr>reserve := \<lparr>capacity = 5000, distributed = 4998\<rparr>\<rparr>" "''0xV''" 7 "[]" 0]
  note full = reserve_capped_and_exhaustion_soft
    [of "''0xD''" 5000 5 10 5 3 exampleHistory reserveScenario "''0xV''" 0 "[0..<1000]" 1000]
  have a: "reserveWithinCap (run (genesis ''0xD'' 5000 5 10 5 3) exampleHistory)"
    using low by blast
  have b: "\<exists>ev s'. exec (reserveScenario\<lparr>reserve := \<lparr>capacity = 5000, distributed = 4998\<rparr>\<rparr>) (Approve 7 ''0xV'')
                 = (Inr (Verified ev), s')
             \<and> payoutStatus ev = ReserveExhausted \<and> statusOf s' 7 = Some Approved
             \<and> reserve s' = \<lparr>capacity = 5000, distributed = 4998\<rparr>"
    using low[THEN conjunct2, THEN conjunct1] low_reserve_facts by auto
  have hyp: "reserve reserveScenario = \<lparr>capacity = 5000, distributed = 0\<rparr> \<and> unitReward reserveScenario = 5
      \<and> canVerify reserveScenario ''0xV'' \<and> length [0..<1000] = 1000 \<and> distinct ([0..<1000] @ [1000])
      \<and> (\<forall>j\<in>set ([0..<1000] @ [1000]). eligible reserveScenario j)"
    using scenario_facts by simp
  have c: "\<exists>s1 ev s2. approveAll reserveScenario ''0xV'' [0..<1000] = Inr s1
             \<and> distributed (reserve s1) = 5000
             \<and> exec s1 (Approve 1000 ''0xV'') = (Inr (Verified ev), s2)
             \<and> payoutStatus ev = ReserveExhausted \<and> statusOf s2 1000 = Some Approved
             \<and> distributed (reserve s2) = 5000
             \<and> rewards s2 ''0xU'' Recyclables = rewards s1 ''0xU'' Recyclables"
    using full[THEN conjunct2, THEN conjunct2, rule_format, OF hyp] by blast
  show ?thesis using a b c by blast
qed

section \<open>Properties of the client wrapper\<close>

subsection \<open>Numbers\<close>

lemma jsLess_Finite: "jsLess (Finite x) (Finite y) = (x < y)"
  by simp

lemma jsLess_NaN: "\<not> jsLess NaN y" "\<not> jsLess x NaN"
  by (cases x; simp)+

lemma toBigInt_mathRound_Finite: "toBigInt (mathRound (Finite r)) = Some \<lfloor>r + 1 / 2\<rfloor>"
  by (simp add: toBigInt_def mathRound_def)

lemma toBigInt_mathRound_isFinite:
  "isFinite x \<Longrightarrow> \<exists>k. toBigInt (mathRound x) = Some k"
  by (cases x) (simp_all add: isFinite_def toBigInt_mathRound_Finite)

lemma toBigInt_mathRound_None:
  "\<not> isFinite x \<Longrightarrow> toBigInt (mathRound x) = None"
  by (cases x) (simp_all add: isFinite_def toBigInt_def mathRound_def)

subsection \<open>The request built by submitCleanup\<close>

lemma contractConfig_no_value:
  "argFee = None \<or> argFee = Some 0 \<Longrightarrow>
     value_wei (contractConfig acct beforeHash afterHash latInt256 lngInt256 argReferrer
        argHasImpactForm argImpactReportHash argFee) = None"
  by (auto simp: contractConfig_def Let_def)

lemma contractConfig_value:
  "value_wei (contractConfig acct beforeHash afterHash latInt256 lngInt256 argReferrer
        argHasImpactForm argImpactReportHash argFee) =
     (case argFee of None \<Rightarrow> None | Some fee \<Rightarrow> if 0 < fee then Some fee else None)"
  by (auto simp: contractConfig_def Let_def split: option.splits)

lemma contractConfig_account:
  "account (contractConfig acct beforeHash afterHash latInt256 lngInt256 argReferrer
        argHasImpactForm argImpactReportHash argFee) = acct"
  by (auto simp: contractConfig_def Let_def split: option.splits)

lemma contractConfig_args:
  "args (contractConfig acct beforeHash afterHash latInt256 lngInt256 argReferrer
        argHasImpactForm argImpactReportHash argFee) =
     ([], beforeHash, afterHash,
      (if argHasImpactForm \<and> argImpactReportHash \<noteq> [] then argImpactReportHash else []),
      latInt256, lngInt256,
      (case argReferrer of None \<Rightarrow> zeroAddress
       | Some r \<Rightarrow> if r \<noteq> [] \<and> r \<noteq> zeroAddress then r else zeroAddress))"
  by (auto simp: contractConfig_def Let_def split: option.splits)

subsection \<open>Creation through the client\<close>

lemma create_FeeRequired:
  "create s who paid now b a loc rep refOpt = Inl FeeRequired \<Longrightarrow>
     enabled (creationFee s) \<and> paid < amount (creationFee s)"
  by (auto simp: create_def Let_def split: if_splits)

lemma create_error:
  "create s who paid now b a loc rep refOpt = Inl e \<Longrightarrow>
     e = InvalidEvidence \<or> e = FeeRequired"
  by (auto simp: create_def Let_def split: if_splits)

lemma create_succeeds:
  "b \<noteq> [] \<Longrightarrow> a \<noteq> [] \<Longrightarrow> \<not> enabled (creationFee s) \<or> amount (creationFee s) \<le> paid \<Longrightarrow>
     \<exists>s'. create s who paid now b a loc rep refOpt = Inr (submissionCount s, s')"
  by (auto simp: create_def Let_def)

text \<open>
  What a call of \<open>submitCleanup\<close> that reaches the chain comes down to: the account, the
  two converted coordinates, and the result of the write on the store as it is after the
  interleaved transactions.
\<close>

lemma submitCleanup_unfold:
  assumes "truthy (SUBMISSION_ADDRESS e)" "accountAddress e = Some acct" "acct \<noteq> []"
    "toBigInt (mathRound (doubleProduct e lat (Finite 1000000))) = Some latInt256"
    "toBigInt (mathRound (doubleProduct e lng (Finite 1000000))) = Some lngInt256"
  shows "submitCleanup e chain interleaved now beforeHash afterHash lat lng argReferrer
       argHasImpactForm argImpactReportHash argFee =
     (case writeContract (run chain interleaved) now
             (contractConfig acct beforeHash afterHash latInt256 lngInt256 argReferrer
                argHasImpactForm argImpactReportHash argFee) of
        Inl err \<Rightarrow> (Inl (FailedToSubmit err), run chain interleaved)
      | Inr (j, chain') \<Rightarrow> (Inr (submissionCount chain), chain'))"
  using assms by (simp add: submitCleanup_def Let_def split: sum.splits prod.splits)

lemma submitCleanup_reaches_chain:
  assumes "fst (submitCleanup e chain interleaved now beforeHash afterHash lat lng argReferrer
       argHasImpactForm argImpactReportHash argFee) = Inr i
     \<or> fst (submitCleanup e chain interleaved now beforeHash afterHash lat lng argReferrer
       argHasImpactForm argImpactReportHash argFee) = Inl (FailedToSubmit err)"
  shows "\<exists>acct latInt256 lngInt256. truthy (SUBMISSION_ADDRESS e) \<and> accountAddress e = Some acct
     \<and> acct \<noteq> []
     \<and> toBigInt (mathRound (doubleProduct e lat (Finite 1000000))) = Some latInt256
     \<and> toBigInt (mathRound (doubleProduct e lng (Finite 1000000))) = Some lngInt256"
  using assms by (auto simp: submitCleanup_def Let_def split: if_splits option.splits)

text \<open>
  A successful call returns the counter that it read; the contract stored the new
  submission under the counter as it was at the write, which is the counter read plus the
  number of creations that came in between.
\<close>

lemma submitCleanup_Inr:
  assumes "submitCleanup e chain interleaved now beforeHash afterHash lat lng argReferrer
     argHasImpactForm argImpactReportHash argFee = (Inr i, chain')"
  shows "i = submissionCount chain
     \<and> submissionCount chain' = Suc (submissionCount (run chain interleaved))
     \<and> (\<exists>sub. submissions chain' =
                 (submissions (run chain interleaved))(submissionCount (run chain interleaved) \<mapsto> sub)
           \<and> submissionId sub = submissionCount (run chain interleaved)
           \<and> status sub = Pending \<and> accountAddress e = Some (submitter sub))"
proof -
  from assms have "fst (submitCleanup e chain interleaved now beforeHash afterHash lat lng
     argReferrer argHasImpactForm argImpactReportHash argFee) = Inr i" by simp
  with submitCleanup_reaches_chain[of e chain interleaved now beforeHash afterHash lat lng
     argReferrer argHasImpactForm argImpactReportHash argFee i]
  obtain acct latInt256 lngInt256 where r: "truthy (SUBMISSION_ADDRESS e)"
      "accountAddress e = Some acct" "acct \<noteq> []"
      "toBigInt (mathRound (doubleProduct e lat (Finite 1000000))) = Some latInt256"
      "toBigInt (mathRound (doubleProduct e lng (Finite 1000000))) = Some lngInt256"
    by blast
  from assms obtain j where wc: "writeContract (run chain interleaved) now
       (contractConfig acct beforeHash afterHash latInt256 lngInt256 argReferrer argHasImpactForm
          argImpactReportHash argFee) = Inr (j, chain')" and i: "i = submissionCount chain"
    unfolding submitCleanup_unfold[OF r] by (auto split: sum.splits)
  from wc obtain paid b a loc rep refOpt where
    "create (run chain interleaved) acct paid now b a loc rep refOpt = Inr (j, chain')"
    by (auto simp: writeContract_def createSubmission_def contractConfig_account split: prod.splits)
  from create_Inr[OF this] i r(2) show ?thesis by auto
qed

lemma submitCleanup_Inr_alone:
  assumes "submitCleanup e chain [] now beforeHash afterHash lat lng argReferrer
     argHasImpactForm argImpactReportHash argFee = (Inr i, chain')"
  shows "i = submissionCount chain \<and> submissionCount chain' = Suc i
     \<and> (\<exists>sub. submissions chain' i = Some sub \<and> submissionId sub = i \<and> status sub = Pending
           \<and> accountAddress e = Some (submitter sub))"
  using submitCleanup_Inr[OF assms] by auto

lemma submitCleanup_Inl:
  "submitCleanup e chain interleaved now beforeHash afterHash lat lng argReferrer
     argHasImpactForm argImpactReportHash argFee = (Inl err, chain') \<Longrightarrow>
   chain' = chain \<or> chain' = run chain interleaved"
  by (auto simp: submitCleanup_def Let_def split: if_splits option.splits sum.splits)

lemma submitCleanup_FeeRequired:
  assumes "fst (submitCleanup e chain interleaved now beforeHash afterHash lat lng argReferrer
     argHasImpactForm argImpactReportHash argFee) = Inl (FailedToSubmit FeeRequired)"
  shows "enabled (creationFee (run chain interleaved)) \<and>
     (case argFee of None \<Rightarrow> 0 | Some fee \<Rightarrow> if 0 < fee then nat fee else 0)
       < amount (creationFee (run chain interleaved))"
proof -
  from submitCleanup_reaches_chain[of e chain interleaved now beforeHash afterHash lat lng
     argReferrer argHasImpactForm argImpactReportHash argFee _ FeeRequired] assms
  obtain acct latInt256 lngInt256 where r: "truthy (SUBMISSION_ADDRESS e)"
      "accountAddress e = Some acct" "acct \<noteq> []"
      "toBigInt (mathRound (doubleProduct e lat (Finite 1000000))) = Some latInt256"
      "toBigInt (mathRound (doubleProduct e lng (Finite 1000000))) = Some lngInt256"
    by blast
  from assms have wc: "writeContract (run chain interleaved) now
       (contractConfig acct beforeHash afterHash latInt256 lngInt256 argReferrer argHasImpactForm
          argImpactReportHash argFee) = Inl FeeRequired"
    unfolding submitCleanup_unfold[OF r] by (auto split: sum.splits)
  then obtain b a loc rep refOpt where
    "create (run chain interleaved) acct
        (case argFee of None \<Rightarrow> 0 | Some fee \<Rightarrow> if 0 < fee then nat fee else 0)
        now b a loc rep refOpt = Inl FeeRequired"
    by (auto simp: writeContract_def createSubmission_def contractConfig_account contractConfig_value
          split: prod.splits option.splits if_splits)
  from create_FeeRequired[OF this] show ?thesis .
qed

lemma submitCleanup_not_blocked:
  assumes "argFee = None \<or> argFee = Some 0"
    "\<not> enabled (creationFee (run chain interleaved)) \<or> amount (creationFee (run chain interleaved)) = 0"
    "truthy (SUBMISSION_ADDRESS e)" "truthy (accountAddress e)" "beforeHash \<noteq> []" "afterHash \<noteq> []"
    "isFinite (doubleProduct e lat (Finite 1000000))" "isFinite (doubleProduct e lng (Finite 1000000))"
  shows "fst (submitCleanup e chain interleaved now beforeHash afterHash lat lng argReferrer
     argHasImpactForm argImpactReportHash argFee) = Inr (submissionCount chain)"
proof -
  from assms(4) obtain acct where acct: "accountAddress e = Some acct" "acct \<noteq> []"
    by (auto simp: truthy_def split: option.splits)
  from toBigInt_mathRound_isFinite[OF assms(7)] toBigInt_mathRound_isFinite[OF assms(8)]
  obtain latInt256 lngInt256 where
      c: "toBigInt (mathRound (doubleProduct e lat (Finite 1000000))) = Some latInt256"
         "toBigInt (mathRound (doubleProduct e lng (Finite 1000000))) = Some lngInt256"
    by blast
  let ?s = "run chain interleaved"
  let ?cfg = "contractConfig acct beforeHash afterHash latInt256 lngInt256 argReferrer
     argHasImpactForm argImpactReportHash argFee"
  let ?rep = "if argHasImpactForm \<and> argImpactReportHash \<noteq> [] then argImpactReportHash else []"
  let ?ref = "case argReferrer of None \<Rightarrow> zeroAddress
       | Some r \<Rightarrow> if r \<noteq> [] \<and> r \<noteq> zeroAddress then r else zeroAddress"
  have v: "value_wei ?cfg = None" using assms(1) by (rule contractConfig_no_value)
  have wc: "writeContract ?s now ?cfg =
      create ?s acct 0 now beforeHash afterHash (latInt256, lngInt256)
        ?rep (if ?ref = zeroAddress then None else Some ?ref)"
    by (simp add: writeContract_def createSubmission_def v contractConfig_account contractConfig_args)
  have fee: "\<not> enabled (creationFee ?s) \<or> amount (creationFee ?s) \<le> 0"
    using assms(2) by simp
  from create_succeeds[OF assms(5,6) fee]
  obtain s' where "create ?s acct 0 now beforeHash afterHash (latInt256, lngInt256)
        ?rep (if ?ref = zeroAddress then None else Some ?ref) = Inr (submissionCount ?s, s')"
    by blast
  with wc have "writeContract ?s now ?cfg = Inr (submissionCount ?s, s')" by simp
  then show ?thesis unfolding submitCleanup_unfold[OF assms(3) acct c] by simp
qed

lemma submitCleanup_RangeError:
  assumes "truthy (SUBMISSION_ADDRESS e)" "truthy (accountAddress e)"
    "\<not> isFinite (doubleProduct e lat (Finite 1000000)) \<or> \<not> isFinite (doubleProduct e lng (Finite 1000000))"
  shows "submitCleanup e chain interleaved now beforeHash afterHash lat lng argReferrer
     argHasImpactForm argImpactReportHash argFee = (Inl RangeError, chain)"
proof -
  from assms(2) obtain acct where acct: "accountAddress e = Some acct" "acct \<noteq> []"
    by (auto simp: truthy_def split: option.splits)
  have none: "toBigInt (mathRound (doubleProduct e lat (Finite 1000000))) = None
      \<or> toBigInt (mathRound (doubleProduct e lng (Finite 1000000))) = None"
    using assms(3)
      toBigInt_mathRound_None[of "doubleProduct e lat (Finite 1000000)"]
      toBigInt_mathRound_None[of "doubleProduct e lng (Finite 1000000)"]
    by (elim disjE) simp_all
  show ?thesis
  proof (cases "toBigInt (mathRound (doubleProduct e lat (Finite 1000000)))")
    case None
    then show ?thesis using assms(1) acct by (simp add: submitCleanup_def Let_def)
  next
    case (Some latInt256)
    with none have "toBigInt (mathRound (doubleProduct e lng (Finite 1000000))) = None" by simp
    with Some show ?thesis using assms(1) acct by (simp add: submitCleanup_def Let_def)
  qed
qed

subsection \<open>Ids assigned by the contract in any history\<close>

lemma step_counter:
  assumes "step s operation = Inr (r, s')"
  shows "(\<exists>i. r = Created i \<and> i = submissionCount s \<and> submissionCount s' = Suc i)
       \<or> ((\<forall>i. r \<noteq> Created i) \<and> submissionCount s' = submissionCount s)"
proof (cases operation)
  case (Create who paid now b a loc rep refOpt)
  with assms obtain i where c: "create s who paid now b a loc rep refOpt = Inr (i, s')" "r = Created i"
    by (auto simp: step_def map_sum_id_Inr)
  from create_Inr[OF c(1)] have "i = submissionCount s" "submissionCount s' = Suc i" by simp_all
  with c(2) show ?thesis by simp
next
  case (AttachRecyclables i p rc)
  with assms have c: "attachRecyclables s i p rc = Inr s'" "r = Done"
    by (auto simp: step_def map_sum_id_Inr)
  from attach_Inr[OF c(1)] have "submissionCount s' = submissionCount s" by simp
  with c(2) show ?thesis by simp
next
  case (Approve i actor)
  with assms obtain ev where c: "approve s i actor = Inr (ev, s')" "r = Verified ev"
    by (auto simp: step_def map_sum_id_Inr)
  from approve_Inr[OF c(1)] have "submissionCount s' = submissionCount s" by blast
  with c(2) show ?thesis by simp
next
  case (Reject i actor)
  with assms obtain ev where c: "reject s i actor = Inr (ev, s')" "r = Verified ev"
    by (auto simp: step_def map_sum_id_Inr)
  from reject_Inr[OF c(1)] have "submissionCount s' = submissionCount s" by auto
  with c(2) show ?thesis by simp
next
  case (Claim a)
  with assms obtain n where c: "claim s a = Inr (n, s')" "r = Claimed n"
    by (auto simp: step_def map_sum_id_Inr)
  from claim_Inr[OF c(1)] have "submissionCount s' = submissionCount s" by simp
  with c(2) show ?thesis by simp
next
  case (SyncReserve cp actor)
  with assms have c: "syncReserve s cp actor = Inr s'" "r = Done"
    by (auto simp: step_def map_sum_id_Inr)
  from syncReserve_Inr[OF c(1)] have "submissionCount s' = submissionCount s" by simp
  with c(2) show ?thesis by simp
next
  case (GrantRole rl a actor)
  with assms have c: "grantRole s rl a actor = Inr s'" "r = Done"
    by (auto simp: step_def map_sum_id_Inr)
  from admin_ops_Inr(1)[OF c(1)] have "submissionCount s' = submissionCount s" by auto
  with c(2) show ?thesis by simp
next
  case (RevokeRole rl a actor)
  with assms have c: "revokeRole s rl a actor = Inr s'" "r = Done"
    by (auto simp: step_def map_sum_id_Inr)
  from admin_ops_Inr(2)[OF c(1)] have "submissionCount s' = submissionCount s" by auto
  with c(2) show ?thesis by simp
next
  case (UpdateTreasury payee actor)
  with assms have c: "updateTreasury s payee actor = Inr s'" "r = Done"
    by (auto simp: step_def map_sum_id_Inr)
  from admin_ops_Inr(3)[OF c(1)] have "submissionCount s' = submissionCount s" by auto
  with c(2) show ?thesis by simp
next
  case (SetFee n b actor)
  with assms have c: "setFee s n b actor = Inr s'" "r = Done"
    by (auto simp: step_def map_sum_id_Inr)
  from admin_ops_Inr(4)[OF c(1)] have "submissionCount s' = submissionCount s" by auto
  with c(2) show ?thesis by simp
qed

lemma exec_counter_created:
  assumes "fst (exec s operation) = Inr (Created i)"
  shows "i = submissionCount s \<and> submissionCount (snd (exec s operation)) = Suc i"
proof (cases "step s operation")
  case (Inl e)
  with assms show ?thesis by (simp add: exec_def)
next
  case (Inr p)
  obtain r s' where p: "p = (r, s')" by (cases p)
  with Inr have st: "step s operation = Inr (r, s')" by simp
  then have ex: "exec s operation = (Inr r, s')" by (simp add: exec_def)
  with assms have "r = Created i" by simp
  with step_counter[OF st] ex show ?thesis by simp
qed

lemma exec_counter_other:
  assumes "\<forall>i. fst (exec s operation) \<noteq> Inr (Created i)"
  shows "submissionCount (snd (exec s operation)) = submissionCount s"
proof (cases "step s operation")
  case (Inl e)
  then show ?thesis by (simp add: exec_def)
next
  case (Inr p)
  obtain r s' where p: "p = (r, s')" by (cases p)
  with Inr have st: "step s operation = Inr (r, s')" by simp
  then have ex: "exec s operation = (Inr r, s')" by (simp add: exec_def)
  with assms have "\<forall>i. r \<noteq> Created i" by simp
  with step_counter[OF st] ex show ?thesis by auto
qed

lemma createdIds_Cons:
  "createdIds (r # rs) = (case r of Inr (Created i) \<Rightarrow> [i] | _ \<Rightarrow> []) @ createdIds rs"
  by (simp add: createdIds_def)

lemma createdIds_skip:
  "\<forall>i. r \<noteq> Inr (Created i) \<Longrightarrow> createdIds (r # rs) = createdIds rs"
  by (auto simp: createdIds_def split: sum.splits outcome.splits)

lemma outcomes_ids:
  "createdIds (outcomes s history) =
     [submissionCount s ..< submissionCount s + length (createdIds (outcomes s history))]
   \<and> submissionCount (run s history) = submissionCount s + length (createdIds (outcomes s history))"
proof (induction history arbitrary: s)
  case Nil
  then show ?case by (simp add: createdIds_def)
next
  case (Cons operation rest)
  let ?s1 = "snd (exec s operation)"
  have unf: "outcomes s (operation # rest) = fst (exec s operation) # outcomes ?s1 rest"
    by (simp add: case_prod_unfold)
  define n where "n = length (createdIds (outcomes ?s1 rest))"
  from Cons.IH[of ?s1] have IH: "createdIds (outcomes ?s1 rest) = [submissionCount ?s1 ..< submissionCount ?s1 + n]"
      "submissionCount (run ?s1 rest) = submissionCount ?s1 + n"
    by (simp_all add: n_def)
  show ?case
  proof (cases "\<exists>i. fst (exec s operation) = Inr (Created i)")
    case True
    then obtain i where i: "fst (exec s operation) = Inr (Created i)" by blast
    from exec_counter_created[OF i] have c: "i = submissionCount s" "submissionCount ?s1 = Suc i"
      by simp_all
    have ids: "createdIds (outcomes s (operation # rest)) = i # [Suc i ..< Suc i + n]"
      unfolding unf i using IH(1) c(2) by (simp add: createdIds_Cons)
    have up: "[i ..< i + Suc n] = i # [Suc i ..< Suc i + n]"
      by (subst upt_rec) simp
    have len: "length (createdIds (outcomes s (operation # rest))) = Suc n"
      unfolding ids by simp
    have "createdIds (outcomes s (operation # rest)) =
        [i ..< i + length (createdIds (outcomes s (operation # rest)))]"
      unfolding len up by (rule ids)
    moreover have "submissionCount (run s (operation # rest)) =
        i + length (createdIds (outcomes s (operation # rest)))"
      unfolding len using IH(2) c(2) by simp
    ultimately show ?thesis unfolding c(1) by blast
  next
    case False
    then have no: "\<forall>i. fst (exec s operation) \<noteq> Inr (Created i)" by blast
    from exec_counter_other[OF no] have c: "submissionCount ?s1 = submissionCount s" .
    have ids: "createdIds (outcomes s (operation # rest)) = createdIds (outcomes ?s1 rest)"
      unfolding unf using no by (rule createdIds_skip)
    have "createdIds (outcomes s (operation # rest)) =
        [submissionCount s ..< submissionCount s + length (createdIds (outcomes s (operation # rest)))]"
      unfolding ids using IH(1) c by (simp add: n_def)
    moreover have "submissionCount (run s (operation # rest)) =
        submissionCount s + length (createdIds (outcomes s (operation # rest)))"
      unfolding ids using IH(2) c by (simp add: n_def)
    ultimately show ?thesis by blast
  qed
qed

lemma outcomes_ids_genesis:
  "createdIds (outcomes (genesis deployer cap unit base bonus refAmount) history) =
     [0 ..< length (createdIds (outcomes (genesis deployer cap unit base bonus refAmount) history))]"
  using outcomes_ids[of "genesis deployer cap unit base bonus refAmount" history]
  by (simp add: genesis_def)

text \<open>The definitions unfolded to evaluate a concrete client call.\<close>

lemmas client_eval_defs = submitCleanup_def truthy_def
  writeContract_def createSubmission_def contractConfig_def mathRound_def toBigInt_def
  zeroAddress_def create_def genesis_def Let_def exampleEnv_def otherEnv_def exactProduct_def
  firstCreation_def secondCreation_def exec_def step_def

lemma example_first:
  "submitCleanup exampleEnv (genesis ''0xD'' 5000 5 10 5 3) [] 100 ''QmBefore'' ''QmAfter''
      (Finite 45.5) (Finite (- 122.25)) None False [] None
     = (Inr 0, run (genesis ''0xD'' 5000 5 10 5 3) [firstCreation])"
  by (simp add: client_eval_defs)

lemma example_second:
  "submitCleanup otherEnv (genesis ''0xD'' 5000 5 10 5 3) [firstCreation] 101 ''QmBefore2''
      ''QmAfter2'' (Finite 10) (Finite 20) None False [] None
     = (Inr 0, run (genesis ''0xD'' 5000 5 10 5 3) [firstCreation, secondCreation])"
  by (simp add: client_eval_defs)

lemma example_store:
  "map_option submitter
      (submissions (run (genesis ''0xD'' 5000 5 10 5 3) [firstCreation, secondCreation]) 0) = Some ''0xU''"
  "map_option submitter
      (submissions (run (genesis ''0xD'' 5000 5 10 5 3) [firstCreation, secondCreation]) 1) = Some ''0xB''"
  "map_option submissionId
      (submissions (run (genesis ''0xD'' 5000 5 10 5 3) [firstCreation, secondCreation]) 1) = Some 1"
  "submissionCount (run (genesis ''0xD'' 5000 5 10 5 3) [firstCreation, secondCreation]) = 2"
  by (simp_all add: client_eval_defs)

lemma example_created:
  "createdIds (outcomes (genesis ''0xD'' 5000 5 10 5 3) [firstCreation, secondCreation]) = [0, 1]"
  by (simp add: client_eval_defs createdIds_def cong: prod.case_cong_weak)

text \<open>
  Claim C4. The contract assigns the ids 0, 1, 2 and so on, whatever other operations
  come between the creations (\<open>outcomes_ids_genesis\<close>), and a call of \<open>submitCleanup\<close>
  with no transaction between its read and its write returns the id that the contract
  assigned (\<open>submitCleanup_Inr_alone\<close>). The claim that every successful call returns
  the id of the new submission fails when two clients overlap. Both read the counter 0 at
  deployment; the creation of the first (account 0xU) is committed before the second
  (account 0xB) writes. The contract stores the first submission under 0 and the second
  under 1, and both calls return 0: the second client is given the id of the other
  client's submission, and the returned ids are not distinct.
\<close>

theorem submitCleanup_returns_stale_counter:
  "submitCleanup exampleEnv (genesis ''0xD'' 5000 5 10 5 3) [] 100 ''QmBefore'' ''QmAfter''
      (Finite 45.5) (Finite (- 122.25)) None False [] None
     = (Inr 0, run (genesis ''0xD'' 5000 5 10 5 3) [firstCreation])
   \<and> submitCleanup otherEnv (genesis ''0xD'' 5000 5 10 5 3) [firstCreation] 101 ''QmBefore2''
      ''QmAfter2'' (Finite 10) (Finite 20) None False [] None
     = (Inr 0, run (genesis ''0xD'' 5000 5 10 5 3) [firstCreation, secondCreation])
   \<and> createdIds (outcomes (genesis ''0xD'' 5000 5 10 5 3) [firstCreation, secondCreation]) = [0, 1]
   \<and> map_option submitter
        (submissions (run (genesis ''0xD'' 5000 5 10 5 3) [firstCreation, secondCreation]) 0)
       = Some ''0xU''
   \<and> map_option submitter
        (submissions (run (genesis ''0xD'' 5000 5 10 5 3) [firstCreation, secondCreation]) 1)
       = Some ''0xB''
   \<and> map_option submissionId
        (submissions (run (genesis ''0xD'' 5000 5 10 5 3) [firstCreation, secondCreation]) 1)
       = Some 1"
  using example_first example_second example_created example_store by simp

text \<open>
  Claim C8. When the fee passed to \<open>submitCleanup\<close> is absent or zero, the request it
  issues carries no payment value; \<open>getSubmissionFee\<close> reports a zero, disabled fee.
  On the contract side FeeRequired arises only when the creation fee is enabled and the
  payment is below its amount, also when the creation comes through the client (the fee
  is the one in force when the write is applied). With the fee disabled (or of amount
  zero), a configured and connected client with non-empty evidence references and
  coordinates whose scaled values are finite is not blocked: the call succeeds and
  returns the counter that it read. With no transaction between the read and the write,
  the fee in force is the one of the store that the call started from.
\<close>

theorem disabled_fee_does_not_block:
  "((argFee = None \<or> argFee = Some 0) \<longrightarrow>
       value_wei (contractConfig acct beforeHash afterHash latInt256 lngInt256 argReferrer
          argHasImpactForm argImpactReportHash argFee) = None)
   \<and> getSubmissionFee = (0, False)
   \<and> (create s who paid now0 b a loc rep refOpt = Inl FeeRequired \<longrightarrow>
        enabled (creationFee s) \<and> paid < amount (creationFee s))
   \<and> (fst (submitCleanup e chain interleaved now beforeHash afterHash lat lng argReferrer
          argHasImpactForm argImpactReportHash argFee) = Inl (FailedToSubmit FeeRequired) \<longrightarrow>
        enabled (creationFee (run chain interleaved))
        \<and> (case argFee of None \<Rightarrow> 0 | Some fee \<Rightarrow> if 0 < fee then nat fee else 0)
            < amount (creationFee (run chain interleaved)))
   \<and> ((argFee = None \<or> argFee = Some 0)
        \<and> (\<not> enabled (creationFee (run chain interleaved))
             \<or> amount (creationFee (run chain interleaved)) = 0)
        \<and> truthy (SUBMISSION_ADDRESS e) \<and> truthy (accountAddress e)
        \<and> beforeHash \<noteq> [] \<and> afterHash \<noteq> []
        \<and> isFinite (doubleProduct e lat (Finite 1000000))
        \<and> isFinite (doubleProduct e lng (Finite 1000000)) \<longrightarrow>
        fst (submitCleanup e chain interleaved now beforeHash afterHash lat lng argReferrer
          argHasImpactForm argImpactReportHash argFee) = Inr (submissionCount chain))"
  using contractConfig_no_value[of argFee acct beforeHash afterHash latInt256 lngInt256
      argReferrer argHasImpactForm argImpactReportHash]
    create_FeeRequired[of s who paid now0 b a loc rep refOpt]
    submitCleanup_FeeRequired[of e chain interleaved now beforeHash afterHash lat lng argReferrer
      argHasImpactForm argImpactReportHash argFee]
    submitCleanup_not_blocked[of argFee chain interleaved e beforeHash afterHash lat lng now
      argReferrer argHasImpactForm argImpactReportHash]
  by (simp add: getSubmissionFee_def)

lemma fee_eval:
  "fst (submitCleanup exampleEnv (run (genesis ''0xD'' 5000 5 10 5 3) feeHistory) [] 100
          ''QmBefore'' ''QmAfter'' (Finite 45.5) (Finite (- 122.25)) None False [] None)
     = Inl (FailedToSubmit FeeRequired)"
  "fst (submitCleanup exampleEnv (genesis ''0xD'' 5000 5 10 5 3) feeHistory 100
          ''QmBefore'' ''QmAfter'' (Finite 45.5) (Finite (- 122.25)) None False [] None)
     = Inl (FailedToSubmit FeeRequired)"
  "amount (creationFee (run (genesis ''0xD'' 5000 5 10 5 3) feeHistory)) = 7"
  by (simp_all add: client_eval_defs feeHistory_def setFee_def hasRole_def)

lemma nofee_eval:
  "\<not> enabled (creationFee (genesis ''0xD'' 5000 5 10 5 3))"
  "truthy (SUBMISSION_ADDRESS exampleEnv)" "truthy (accountAddress exampleEnv)"
  "submissionCount (genesis ''0xD'' 5000 5 10 5 3) = 0"
  "isFinite (doubleProduct exampleEnv (Finite 45.5) (Finite 1000000))"
  "isFinite (doubleProduct exampleEnv (Finite (- 122.25)) (Finite 1000000))"
  by (simp_all add: genesis_def exampleEnv_def truthy_def exactProduct_def isFinite_def)

text \<open>
  An instance: with the fee disabled a call with fee 0 succeeds at deployment; after
  \<open>feeHistory\<close> the same call without a fee fails with FeeRequired.
\<close>

theorem disabled_fee_does_not_block_witness:
  "value_wei (contractConfig ''0xU'' ''QmBefore'' ''QmAfter'' 45500000 (- 122250000) None False []
      (Some 0)) = None
   \<and> getSubmissionFee = (0, False)
   \<and> fst (submitCleanup exampleEnv (genesis ''0xD'' 5000 5 10 5 3) [] 100
          ''QmBefore'' ''QmAfter'' (Finite 45.5) (Finite (- 122.25)) None False [] (Some 0)) = Inr 0
   \<and> fst (submitCleanup exampleEnv (run (genesis ''0xD'' 5000 5 10 5 3) feeHistory) [] 100
          ''QmBefore'' ''QmAfter'' (Finite 45.5) (Finite (- 122.25)) None False [] None)
        = Inl (FailedToSubmit FeeRequired)
   \<and> enabled (creationFee (run (genesis ''0xD'' 5000 5 10 5 3) feeHistory))
   \<and> (0::nat) < amount (creationFee (run (genesis ''0xD'' 5000 5 10 5 3) feeHistory))"
proof -
  note free = disabled_fee_does_not_block
    [of "Some 0" "''0xU''" "''QmBefore''" "''QmAfter''" 45500000 "- 122250000" None False "[]"
        "genesis ''0xD'' 5000 5 10 5 3" "''0xU''" 0 100 "''QmBefore''" "''QmAfter''" "(0, 0)" "[]" None
        exampleEnv "genesis ''0xD'' 5000 5 10 5 3" "[]" 100 "Finite 45.5" "Finite (- 122.25)"]
  note paid = disabled_fee_does_not_block
    [of None "''0xU''" "''QmBefore''" "''QmAfter''" 45500000 "- 122250000" None False "[]"
        "genesis ''0xD'' 5000 5 10 5 3" "''0xU''" 0 100 "''QmBefore''" "''QmAfter''" "(0, 0)" "[]" None
        exampleEnv "run (genesis ''0xD'' 5000 5 10 5 3) feeHistory" "[]" 100
        "Finite 45.5" "Finite (- 122.25)"]
  have a: "value_wei (contractConfig ''0xU'' ''QmBefore'' ''QmAfter'' 45500000 (- 122250000) None False []
      (Some 0)) = None"
    using free by simp
  have b: "getSubmissionFee = (0, False)" using free by simp
  have c: "fst (submitCleanup exampleEnv (genesis ''0xD'' 5000 5 10 5 3) [] 100
          ''QmBefore'' ''QmAfter'' (Finite 45.5) (Finite (- 122.25)) None False [] (Some 0)) = Inr 0"
    using free nofee_eval by simp
  have d: "enabled (creationFee (run (genesis ''0xD'' 5000 5 10 5 3) feeHistory))
     \<and> (0::nat) < amount (creationFee (run (genesis ''0xD'' 5000 5 10 5 3) feeHistory))"
    using paid fee_eval(1) by simp
  show ?thesis using a b c d fee_eval(1) by simp
qed

subsection \<open>Level and rewards reads\<close>

lemma getCleanupDetails_level:
  "getCleanupDetails e chain now cleanupId = Inr d \<Longrightarrow>
     level_cd d = (if verified d then 1 else 0)
     \<and> (truthy (SUBMISSION_ADDRESS e) \<longrightarrow>
          verified d = (statusOf chain cleanupId = Some Approved)
        \<and> rejected d = (statusOf chain cleanupId = Some Rejected))
     \<and> (\<not> truthy (SUBMISSION_ADDRESS e) \<longrightarrow> level_cd d = 0)"
  by (cases "submissions chain cleanupId"; cases "status (the (submissions chain cleanupId))")
     (auto simp: getCleanupDetails_def getSubmissionDetails_def statusOf_def statusCode_def Let_def
        split: if_splits option.splits sum.splits)

text \<open>
  Claim C6, as amended. \<open>getUserLevel\<close> returns 0 for every account, whatever the
  number of its Approved submissions, and the level field of \<open>getCleanupDetails\<close> is 1
  when that one submission is Approved and 0 otherwise. Neither is the tier that the
  leveling rule assigns to the count of the user's Approved submissions.
\<close>

theorem level_reads_ignore_approved_count:
  "getUserLevel a = 0
   \<and> (getCleanupDetails e chain now cleanupId = Inr d \<longrightarrow>
        level_cd d = (if verified d then 1 else 0)
        \<and> (truthy (SUBMISSION_ADDRESS e) \<longrightarrow>
             verified d = (statusOf chain cleanupId = Some Approved)))"
  using getCleanupDetails_level[of e chain now cleanupId d]
  by (simp add: getUserLevel_def)

lemma two_approved_eval:
  "approvedCount (run (genesis ''0xD'' 5000 5 10 5 3) twoApprovedHistory) ''0xU'' = 2"
  "map_sum id level_cd (getCleanupDetails exampleEnv (run (genesis ''0xD'' 5000 5 10 5 3) twoApprovedHistory) 300 0) = Inr 1"
  "map_sum id level_cd (getCleanupDetails exampleEnv (run (genesis ''0xD'' 5000 5 10 5 3) twoApprovedHistory) 300 1) = Inr 1"
  "map_sum id verified (getCleanupDetails exampleEnv (run (genesis ''0xD'' 5000 5 10 5 3) twoApprovedHistory) 300 1) = Inr True"
  by (simp_all add: twoApprovedHistory_def eval_defs approvedCount_def getCleanupDetails_def
        getSubmissionDetails_def exampleEnv_def truthy_def statusCode_def upt_rec)

theorem level_reads_ignore_approved_count_witness:
  "getUserLevel ''0xU'' = 0
   \<and> map_sum id level_cd (getCleanupDetails exampleEnv
        (run (genesis ''0xD'' 5000 5 10 5 3) twoApprovedHistory) 300 1) = Inr 1
   \<and> statusOf (run (genesis ''0xD'' 5000 5 10 5 3) twoApprovedHistory) 1 = Some Approved"
proof -
  let ?c = "run (genesis ''0xD'' 5000 5 10 5 3) twoApprovedHistory"
  obtain d where d: "getCleanupDetails exampleEnv ?c 300 1 = Inr d" "level_cd d = 1" "verified d"
    using two_approved_eval(3,4)
    by (cases "getCleanupDetails exampleEnv ?c 300 1") auto
  have cfg: "truthy (SUBMISSION_ADDRESS exampleEnv)" by (simp add: exampleEnv_def truthy_def)
  note t = level_reads_ignore_approved_count [of "''0xU''" exampleEnv ?c 300 1 d]
  from t d cfg have "statusOf ?c 1 = Some Approved" by simp
  moreover from t have "getUserLevel ''0xU'' = 0" by simp
  ultimately show ?thesis using two_approved_eval(3) by simp
qed

text \<open>
  The claim as first stated fails: after \<open>twoApprovedHistory\<close> the user has two Approved
  submissions, the leveling rule gives tier 2, \<open>getUserLevel\<close> returns 0 and
  \<open>getCleanupDetails\<close> reports level 1.
\<close>

theorem level_read_counterexample:
  "approvedCount (run (genesis ''0xD'' 5000 5 10 5 3) twoApprovedHistory) ''0xU'' = 2
   \<and> tier (levelRule (int (approvedCount (run (genesis ''0xD'' 5000 5 10 5 3) twoApprovedHistory) ''0xU''))) = 2
   \<and> getUserLevel ''0xU''
       \<noteq> tier (levelRule (int (approvedCount (run (genesis ''0xD'' 5000 5 10 5 3) twoApprovedHistory) ''0xU'')))
   \<and> map_sum id level_cd (getCleanupDetails exampleEnv
        (run (genesis ''0xD'' 5000 5 10 5 3) twoApprovedHistory) 300 0)
       \<noteq> Inr (tier (levelRule (int (approvedCount (run (genesis ''0xD'' 5000 5 10 5 3) twoApprovedHistory) ''0xU''))))"
  by (simp add: two_approved_eval levelRule_def levelTier_def getUserLevel_def)

lemma accrued_after_approve:
  assumes "approve s i actor = Inr (ev, s')" "submissions s i = Some sub" "\<not> rewarded sub"
  shows "accrued s' (submitter sub) =
     accrued s (submitter sub) + baseAmount s
     + (if impactReportRef sub \<noteq> [] then reportBonus s else 0)
     + (if recordedReferrer sub = Some (submitter sub) then referralAmount s else 0)
     + (if payoutStatus ev = PaidOut then unitReward s else 0)"
  using approve_ledger[OF assms, of "submitter sub" BaseImpact]
    approve_ledger[OF assms, of "submitter sub" Streak]
    approve_ledger[OF assms, of "submitter sub" Referral]
    approve_ledger[OF assms, of "submitter sub" ImpactReport]
    approve_ledger[OF assms, of "submitter sub" VerifierIncentive]
    approve_ledger[OF assms, of "submitter sub" Recyclables]
  by (simp add: accrued_def categories_def)

text \<open>
  Claim C7, as amended. \<open>getClaimableRewards\<close> returns 0 for every account. The ledger
  itself holds what the claim describes: a successful claim returns the sum of the
  account's categories and leaves that sum at zero, and an approval that credits a not
  yet rewarded submission raises the submitter's sum by at least the base amount. The
  client read does not report that sum.
\<close>

theorem claimable_read_is_constant_zero:
  "getClaimableRewards a = 0
   \<and> (claim s a = Inr (n, s') \<longrightarrow> n = accrued s a \<and> accrued s' a = 0)
   \<and> (approve s i actor = Inr (ev, s1) \<and> submissions s i = Some sub \<and> \<not> rewarded sub \<longrightarrow>
        accrued s1 (submitter sub) \<ge> accrued s (submitter sub) + baseAmount s)"
proof (intro conjI impI)
  show "getClaimableRewards a = 0" by (simp add: getClaimableRewards_def)
next
  assume "claim s a = Inr (n, s')"
  from claim_Inr[OF this] show "n = accrued s a" "accrued s' a = 0"
    by (simp_all add: accrued_def categories_def)
next
  assume "approve s i actor = Inr (ev, s1) \<and> submissions s i = Some sub \<and> \<not> rewarded sub"
  then show "accrued s1 (submitter sub) \<ge> accrued s (submitter sub) + baseAmount s"
    using accrued_after_approve[of s i actor ev s1 sub] by simp
qed

lemma claimable_eval:
  "accrued (run (genesis ''0xD'' 5000 5 10 5 3) exampleHistory) ''0xU'' = 15"
  by (simp add: exampleHistory_def eval_defs)

text \<open>
  The claim as first stated fails: after \<open>exampleHistory\<close> the submitter has accrued
  15 (base 10 and report bonus 5), unclaimed, and \<open>getClaimableRewards\<close> returns 0.
\<close>

theorem claimable_read_counterexample:
  "accrued (run (genesis ''0xD'' 5000 5 10 5 3) exampleHistory) ''0xU'' = 15
   \<and> getClaimableRewards ''0xU''
        \<noteq> int (accrued (run (genesis ''0xD'' 5000 5 10 5 3) exampleHistory) ''0xU'')
   \<and> getClaimableRewards ''0xU'' = 0"
  by (simp add: claimable_eval getClaimableRewards_def)

lemma claim_eval:
  "claim (run (genesis ''0xD'' 5000 5 10 5 3) exampleHistory) ''0xU''
     = Inr (15, snd (exec (run (genesis ''0xD'' 5000 5 10 5 3) exampleHistory) (Claim ''0xU'')))"
  using claimable_eval by (simp add: claim_def exec_def step_def Let_def)

theorem claimable_read_is_constant_zero_witness:
  "getClaimableRewards ''0xU'' = 0
   \<and> accrued (run (genesis ''0xD'' 5000 5 10 5 3) exampleHistory) ''0xU'' = 15
   \<and> accrued (snd (exec (run (genesis ''0xD'' 5000 5 10 5 3) exampleHistory) (Claim ''0xU''))) ''0xU'' = 0
   \<and> (\<exists>ev s1. approve (run (genesis ''0xD'' 5000 5 10 5 3) pendingHistory) 0 ''0xV'' = Inr (ev, s1)
         \<and> 10 \<le> accrued s1 ''0xU'')"
proof -
  let ?e = "run (genesis ''0xD'' 5000 5 10 5 3) exampleHistory"
  let ?p = "run (genesis ''0xD'' 5000 5 10 5 3) pendingHistory"
  have claimed: "getClaimableRewards ''0xU'' = 0 \<and> accrued ?e ''0xU'' = 15
      \<and> accrued (snd (exec ?e (Claim ''0xU''))) ''0xU'' = 0"
    using claimable_read_is_constant_zero
      [of "''0xU''" ?e 15 "snd (exec ?e (Claim ''0xU''))"] claim_eval claimable_eval
    by simp
  obtain ev s1 where ap: "approve ?p 0 ''0xV'' = Inr (ev, s1)"
    using approve_unfold[OF pending_roles(1) pending_sub] by auto
  have start: "accrued ?p ''0xU'' = 0" "baseAmount ?p = 10"
    by (simp_all add: pendingHistory_def eval_defs)
  let ?sub = "\<lparr>submissionId = 0, submitter = ''0xU'', beforeEvidenceRef = ''before'',
           afterEvidenceRef = ''after'', recyclablesEvidenceRef = None,
           recyclablesReceiptRef = None, impactReportRef = ''report'',
           recordedReferrer = Some ''0xR'', location = (1000000, 2000000), createdAt = 100,
           status = Pending, rewarded = False\<rparr>"
  have "accrued ?p ''0xU'' + baseAmount ?p \<le> accrued s1 ''0xU''"
    using claimable_read_is_constant_zero
      [of "''0xU''" ?p 0 ?p 0 "''0xV''" ev s1 ?sub, THEN conjunct2, THEN conjunct2]
      ap pending_sub
    by simp
  with start have "10 \<le> accrued s1 ''0xU''" by simp
  with ap claimed show ?thesis by blast
qed

section \<open>Properties of the impact product uploads\<close>

text \<open>
  The guards as they are written: \<open>uploadImpactProductImage\<close> fails without any
  upload when one of its two comparisons of the level holds, and when neither holds but
  the type of the file is neither image/png nor image/gif; otherwise it makes exactly one
  upload, of that file. \<open>batchUploadImpactProducts\<close> fails without any upload unless
  it is given exactly 10 image files. For a finite level, and for the two infinities, one
  of the comparisons holds exactly when the level is outside the range from 1 to 10.
\<close>

lemma uploadImpactProductImage_guards:
  "(jsLess level (Finite 1) \<or> jsGreater level (Finite 10) \<longrightarrow>
       uploadImpactProductImage svc sent file level = (Inl LevelOutOfRange, sent))
   \<and> (\<not> jsLess level (Finite 1) \<and> \<not> jsGreater level (Finite 10)
        \<and> file_type file \<noteq> ''image/png'' \<and> file_type file \<noteq> ''image/gif'' \<longrightarrow>
       uploadImpactProductImage svc sent file level = (Inl BadFileType, sent))
   \<and> (\<not> jsLess level (Finite 1) \<and> \<not> jsGreater level (Finite 10)
        \<and> (file_type file = ''image/png'' \<or> file_type file = ''image/gif'') \<longrightarrow>
       snd (uploadImpactProductImage svc sent file level) = sent @ [FileUpload file])"
  by (auto simp: uploadImpactProductImage_def Let_def split: option.splits)

lemma batchUploadImpactProducts_guard:
  "length images \<noteq> 10 \<Longrightarrow>
     batchUploadImpactProducts svc sent images animation = (Inl WrongImageCount, sent)"
  by (simp add: batchUploadImpactProducts_def)

lemma level_comparisons:
  "(jsLess (Finite x) (Finite 1) \<or> jsGreater (Finite x) (Finite 10)) = (x < 1 \<or> 10 < x)"
  "jsGreater PosInfinity (Finite 10)"
  "jsLess NegInfinity (Finite 1)"
  "\<not> jsLess NaN (Finite 1)"
  "\<not> jsGreater NaN (Finite 10)"
  by (simp_all add: jsGreater_def)

lemma uploadImpactProductImage_finite:
  "x < 1 \<or> 10 < x \<Longrightarrow>
     uploadImpactProductImage svc sent file (Finite x) = (Inl LevelOutOfRange, sent)"
  by (simp add: uploadImpactProductImage_def jsGreater_def)

text \<open>
  Claim C10. The level of \<open>uploadImpactProductImage\<close> is a \<open>number\<close>, and NaN is
  one. NaN is outside the range from 1 to 10, but both comparisons of the guard are
  false on it: the call with a PNG file and the level NaN passes the guard, uploads the
  file and returns the result of the upload, where the claim has it fail without an
  upload. The levels 0 and 11 are refused with nothing uploaded, and a batch of 9 images
  is refused with nothing uploaded.
\<close>

theorem upload_accepts_nan_level:
  "uploadImpactProductImage examplePinning [] pngFile NaN
     = (Inr \<lparr>hash = ''QmIP1.png'', url = ''https://gateway/IP1.png''\<rparr>, [FileUpload pngFile])
   \<and> uploadImpactProductImage examplePinning [] pngFile (Finite 0) = (Inl LevelOutOfRange, [])
   \<and> uploadImpactProductImage examplePinning [] pngFile (Finite 11) = (Inl LevelOutOfRange, [])
   \<and> batchUploadImpactProducts examplePinning [] (replicate 9 pngFile) None
        = (Inl WrongImageCount, [])"
  by (simp add: uploadImpactProductImage_def batchUploadImpactProducts_def jsGreater_def
        examplePinning_def pngFile_def)

text \<open>With 10 PNG files the batch passes its guard and makes 20 uploads.\<close>

lemma batch_runs:
  "fst (batchUploadImpactProducts examplePinning [] (replicate 10 pngFile) None) \<noteq> Inl WrongImageCount"
  "length (snd (batchUploadImpactProducts examplePinning [] (replicate 10 pngFile) None)) = 20"
  by (simp_all add: batchUploadImpactProducts_def uploadAllImpactProductImages_def
        uploadImpactProductImage_def jsGreater_def uploadImpactProductMetadata_def firstRejection_def
        examplePinning_def pngFile_def Let_def upt_rec numeral_eq_Suc)

end
